theory Spec2Isabelle
  imports Complex_Main "HOL-Library.Word"
begin

section \<open>The Gummy duplex streaming client (test/test_gummy_websocket.py)\<close>

text \<open>
  The development embeds the class \<open>GummyWebSocketClient\<close> and the driver
  \<open>test_with_audio_file\<close>. Python exceptions are values of \<open>exn\<close>; every
  method returns its outcome together with the state it leaves behind, because the
  side effects of a method that raises (frames already written, lines already printed)
  stay in place. Pacing (\<open>asyncio.sleep\<close>) and the progress percentage are not
  modelled; the division the progress computation performs is, because it can raise.
\<close>

subsection \<open>Values on the wire\<close>

type_synonym byte = "8 word"
type_synonym bytes = "byte list"

text \<open>
  What \<open>json.loads\<close> can return and \<open>json.dumps\<close> accepts. A dict is an association
  list read with \<open>map_of\<close>: the entry of a key is its first pair.
\<close>

datatype json =
    JNull
  | JBool bool
  | JInt int
  | JFloat rat
  | JStr string
  | JArr "json list"
  | JObj "(string \<times> json) list"

datatype exn =
    FileNotFoundError
  | IsADirectoryError
  | WaveError
  | ValueError
  | ZeroDivisionError
  | AttributeError
  | TypeError
  | JSONDecodeError
  | UnicodeDecodeError
  | ConnectionClosed
  | HandshakeError

type_synonym 'a result = "exn + 'a"

text \<open>
  A text frame carries the value handed to \<open>json.dumps\<close>; a binary frame carries the
  bytes handed to \<open>websocket.send\<close>.
\<close>

datatype frame = TextFrame json | BinaryFrame bytes

subsection \<open>The connection\<close>

text \<open>
  \<open>outbound\<close> is the ordered log of the frames written so far. \<open>sends_left\<close> is the
  number of further writes the peer accepts before it closes the connection
  (\<open>None\<close>: it stays open); a write on a closed connection raises
  \<open>ConnectionClosed\<close> and writes nothing.
\<close>

record connection =
  outbound :: "frame list"
  sends_left :: "nat option"
  closed :: bool

definition ws_send :: "connection \<Rightarrow> frame \<Rightarrow> unit result \<times> connection" where
  "ws_send ws m =
     (if closed ws then (Inl ConnectionClosed, ws)
      else case sends_left ws of
             None \<Rightarrow> (Inr (), ws\<lparr>outbound := outbound ws @ [m]\<rparr>)
           | Some 0 \<Rightarrow> (Inl ConnectionClosed, ws)
           | Some (Suc n) \<Rightarrow>
               (Inr (), ws\<lparr>outbound := outbound ws @ [m], sends_left := Some n\<rparr>))"

definition ws_close :: "connection \<Rightarrow> connection" where
  "ws_close ws = ws\<lparr>closed := True\<rparr>"

text \<open>
  The remote endpoint as the client sees it: whether the handshake for a URL and a list
  of headers succeeds, and after how many frames it closes the connection.
\<close>

record server =
  accepts :: "string \<Rightarrow> (string \<times> string) list \<Rightarrow> bool"
  close_after :: "nat option"

definition websockets_connect ::
  "server \<Rightarrow> string \<Rightarrow> (string \<times> string) list \<Rightarrow> connection result" where
  "websockets_connect srv u hs =
     (if accepts srv u hs
      then Inr \<lparr>outbound = [], sends_left = close_after srv, closed = False\<rparr>
      else Inl HandshakeError)"

subsection \<open>The client object\<close>

record client =
  api_key :: string
  url :: string
  task_id :: string
  websocket :: "connection option"

text \<open>\<open>__init__\<close>; \<open>uuid4\<close> is the string \<open>str(uuid.uuid4())\<close> evaluates to.\<close>

definition init :: "string \<Rightarrow> string \<Rightarrow> client" where
  "init key uuid4 =
     \<lparr>api_key = key,
      url = ''wss://dashscope.aliyuncs.com/api-ws/v1/inference'',
      task_id = uuid4,
      websocket = None\<rparr>"

definition connect :: "server \<Rightarrow> client \<Rightarrow> unit result \<times> client" where
  "connect srv c =
     (let headers =
        [(''Authorization'', ''bearer '' @ api_key c),
         (''user-agent'', ''GummyTest/1.0''),
         (''X-DashScope-DataInspection'', ''enable'')]
      in case websockets_connect srv (url c) headers of
           Inl e \<Rightarrow> (Inl e, c)
         | Inr ws \<Rightarrow> (Inr (), c\<lparr>websocket := Some ws\<rparr>))"

text \<open>
  \<open>self.websocket.send(m)\<close>: an attribute access on \<open>None\<close> when the client never
  connected, a write on the connection otherwise.
\<close>

definition websocket_send :: "client \<Rightarrow> frame \<Rightarrow> unit result \<times> client" where
  "websocket_send c m =
     (case websocket c of
        None \<Rightarrow> (Inl AttributeError, c)
      | Some ws \<Rightarrow>
          (case ws_send ws m of (r, ws') \<Rightarrow> (r, c\<lparr>websocket := Some ws'\<rparr>)))"

definition close :: "client \<Rightarrow> client" where
  "close c =
     (case websocket c of
        None \<Rightarrow> c
      | Some ws \<Rightarrow> c\<lparr>websocket := Some (ws_close ws)\<rparr>)"

subsection \<open>Control messages\<close>

definition run_task_message ::
  "string \<Rightarrow> string \<Rightarrow> string \<Rightarrow> int \<Rightarrow> string \<Rightarrow> int \<Rightarrow> bool \<Rightarrow> json" where
  "run_task_message tid target_lang source_lang sample_rate format max_end_silence
       enable_inverse_text_normalization =
     JObj
       [(''header'',
           JObj [(''task_id'', JStr tid),
                 (''action'', JStr ''run-task''),
                 (''streaming'', JStr ''duplex'')]),
        (''payload'',
           JObj [(''task_group'', JStr ''audio''),
                 (''task'', JStr ''asr''),
                 (''function'', JStr ''recognition''),
                 (''model'', JStr ''gummy-realtime-v1''),
                 (''input'',
                    JObj [(''format'', JStr format),
                          (''sample_rate'', JInt sample_rate),
                          (''audio_type'', JStr ''sentence''),
                          (''translation'',
                             JObj [(''target_lang'', JStr target_lang),
                                   (''source_lang'', JStr source_lang)])]),
                 (''parameters'',
                    JObj [(''max_end_silence'', JInt max_end_silence),
                          (''enable_inverse_text_normalization'',
                             JBool enable_inverse_text_normalization)])])]"

definition send_run_task ::
  "client \<Rightarrow> string \<Rightarrow> string \<Rightarrow> int \<Rightarrow> string \<Rightarrow> int \<Rightarrow> bool \<Rightarrow> unit result \<times> client" where
  "send_run_task c target_lang source_lang sample_rate format max_end_silence
       enable_inverse_text_normalization =
     websocket_send c
       (TextFrame
          (run_task_message (task_id c) target_lang source_lang sample_rate format
             max_end_silence enable_inverse_text_normalization))"

definition finish_task_message :: "string \<Rightarrow> json" where
  "finish_task_message tid =
     JObj
       [(''header'',
           JObj [(''task_id'', JStr tid),
                 (''action'', JStr ''finish-task''),
                 (''streaming'', JStr ''duplex'')]),
        (''payload'', JObj [(''input'', JObj [])])]"

definition send_finish_task :: "client \<Rightarrow> unit result \<times> client" where
  "send_finish_task c = websocket_send c (TextFrame (finish_task_message (task_id c)))"

subsection \<open>Audio files\<close>

text \<open>
  What \<open>wave.open(path, 'rb')\<close> exposes: the three header fields the client reads and
  the payload of the data chunk. The frame count is the one the library computes,
  the chunk size divided by the frame size.
\<close>

record wave_read =
  nchannels :: nat
  sampwidth :: nat
  framerate :: nat
  data_chunk :: bytes

definition getnframes :: "wave_read \<Rightarrow> nat" where
  "getnframes w = length (data_chunk w) div (nchannels w * sampwidth w)"

text \<open>
  A path names a directory (with the size \<open>os.path.getsize\<close> reports for it) or a
  regular file: its bytes, and the view \<open>wave.open\<close> gives of them, \<open>None\<close> when the
  bytes are not a RIFF/WAVE container and \<open>wave.open\<close> raises.
\<close>

datatype fs_entry = Directory nat | RegularFile bytes "wave_read option"

type_synonym filesystem = "string \<rightharpoonup> fs_entry"

definition os_path_exists :: "filesystem \<Rightarrow> string \<Rightarrow> bool" where
  "os_path_exists fs p = (fs p \<noteq> None)"

fun os_path_getsize :: "fs_entry \<Rightarrow> nat" where
  "os_path_getsize (Directory n) = n"
| "os_path_getsize (RegularFile bs w) = length bs"

fun wave_open :: "fs_entry \<Rightarrow> wave_read result" where
  "wave_open (Directory n) = Inl IsADirectoryError"
| "wave_open (RegularFile bs None) = Inl WaveError"
| "wave_open (RegularFile bs (Some w)) = Inr w"

text \<open>\<open>open(path, 'rb')\<close>: the open file is the list of bytes not read yet.\<close>

fun open_rb :: "fs_entry \<Rightarrow> bytes result" where
  "open_rb (Directory n) = Inl IsADirectoryError"
| "open_rb (RegularFile bs w) = Inr bs"

definition endswith :: "string \<Rightarrow> string \<Rightarrow> bool" where
  "endswith s suffix =
     (length suffix \<le> length s \<and> drop (length s - length suffix) s = suffix)"

text \<open>
  \<open>f.read(n)\<close> on a buffered binary file: \<open>-1\<close> reads to the end, any other negative
  size raises \<open>ValueError\<close>. The result is the data and the file advanced past it.
\<close>

definition file_read :: "bytes \<Rightarrow> int \<Rightarrow> (bytes \<times> bytes) result" where
  "file_read f n =
     (if n < - 1 then Inl ValueError
      else if n = - 1 then Inr (f, [])
      else Inr (take (nat n) f, drop (nat n) f))"

text \<open>
  \<open>Wave_read.readframes(nframes)\<close> on the unread part of the data chunk with frame
  size \<open>framesize\<close>: nothing for zero frames, everything left for a negative count,
  otherwise at most \<open>nframes * framesize\<close> bytes.
\<close>

definition readframes :: "nat \<Rightarrow> bytes \<Rightarrow> int \<Rightarrow> bytes \<times> bytes" where
  "readframes framesize rest nframes =
     (if nframes = 0 then ([], rest)
      else let size = nframes * int framesize in
        if size < 0 then (rest, [])
        else (take (nat size) rest, drop (nat size) rest))"

subsection \<open>Streaming the audio\<close>

text \<open>
  The loop of the raw branch. \<open>f\<close> is the open file, \<open>file_size\<close> the size read
  before the loop; the progress line divides by it after every write.
\<close>

function send_raw_chunks :: "client \<Rightarrow> int \<Rightarrow> bytes \<Rightarrow> nat \<Rightarrow> unit result \<times> client" where
  "send_raw_chunks c chunk_size f file_size =
     (case file_read f chunk_size of
        Inl e \<Rightarrow> (Inl e, c)
      | Inr (data, f') \<Rightarrow>
          if data = [] then (Inr (), c)
          else (case websocket_send c (BinaryFrame data) of
                  (Inl e, c') \<Rightarrow> (Inl e, c')
                | (Inr u, c') \<Rightarrow>
                    if file_size = 0 then (Inl ZeroDivisionError, c')
                    else send_raw_chunks c' chunk_size f' file_size))"
  by pat_completeness auto
termination
  by (relation "measure (\<lambda>(c, chunk_size, f, file_size). length f)")
     (auto simp: file_read_def split: if_splits)

declare send_raw_chunks.simps [simp del]

text \<open>
  The loop of the WAV branch. \<open>rest\<close> is the unread part of the data chunk; the
  progress line divides by \<open>total_frames\<close> after every write.
\<close>

function send_wav_frames ::
  "client \<Rightarrow> nat \<Rightarrow> int \<Rightarrow> nat \<Rightarrow> bytes \<Rightarrow> unit result \<times> client" where
  "send_wav_frames c framesize frames_per_chunk total_frames rest =
     (case readframes framesize rest frames_per_chunk of
        (data, rest') \<Rightarrow>
          if data = [] then (Inr (), c)
          else (case websocket_send c (BinaryFrame data) of
                  (Inl e, c') \<Rightarrow> (Inl e, c')
                | (Inr u, c') \<Rightarrow>
                    if total_frames = 0 then (Inl ZeroDivisionError, c')
                    else send_wav_frames c' framesize frames_per_chunk total_frames rest'))"
  by pat_completeness auto
termination
proof (relation "measure (\<lambda>(c, framesize, frames_per_chunk, total_frames, rest). length rest)",
    goal_cases)
  case 1
  show ?case by simp
next
  case (2 c framesize frames_per_chunk total_frames rest data rest' r c')
  from 2(1) [symmetric] 2(2)
  have rd: "readframes framesize rest frames_per_chunk = (data, rest')"
    and ne: "data \<noteq> []"
    by simp_all
  have "length rest' < length rest"
  proof (cases "frames_per_chunk = 0 \<or> frames_per_chunk * int framesize < 0")
    case True
    with rd ne show ?thesis
      by (auto simp: readframes_def Let_def split: if_splits)
  next
    case False
    with rd have d: "data = take (nat (frames_per_chunk * int framesize)) rest"
      and r: "rest' = drop (nat (frames_per_chunk * int framesize)) rest"
      by (simp_all add: readframes_def Let_def)
    from ne d have "0 < nat (frames_per_chunk * int framesize)" and "0 < length rest"
      by auto
    then show ?thesis unfolding r length_drop by (rule diff_less)
  qed
  then show ?case by simp
qed

declare send_wav_frames.simps [simp del]

text \<open>
  \<open>send_audio_data\<close>. The existence check comes first; the later lookup of the
  path stands for opening the file, which raises the same exception for a path that
  does not exist. The two durations are quotients of integers compared with 60. They
  are modelled as rationals: the float quotient is above 60 exactly when the rational one
  is, for frame counts and frame rates a WAV header can hold (below \<open>2 ^ 32\<close>) and
  for every file size a float represents exactly.
\<close>

definition send_audio_data ::
  "filesystem \<Rightarrow> client \<Rightarrow> string \<Rightarrow> int \<Rightarrow> unit result \<times> client" where
  "send_audio_data fs c audio_file_path chunk_size =
     (if \<not> os_path_exists fs audio_file_path then (Inl FileNotFoundError, c)
      else case fs audio_file_path of
        None \<Rightarrow> (Inl FileNotFoundError, c)
      | Some entry \<Rightarrow>
          if endswith audio_file_path ''.wav'' then
            (case wave_open entry of
               Inl e \<Rightarrow> (Inl e, c)
             | Inr w \<Rightarrow>
                 let channels = nchannels w;
                     sample_width = sampwidth w;
                     total_frames = getnframes w
                 in if framerate w = 0 then (Inl ZeroDivisionError, c)
                    else if (of_nat total_frames :: rat) / of_nat (framerate w) > 60
                      then (Inl ValueError, c)
                    else if sample_width * channels = 0 then (Inl ZeroDivisionError, c)
                    else send_wav_frames c (channels * sample_width)
                           (chunk_size div int (sample_width * channels))
                           total_frames (data_chunk w))
          else
            (let file_size = os_path_getsize entry
             in if (of_nat file_size :: rat) / (16000 * 2) > 60 then (Inl ValueError, c)
                else case open_rb entry of
                       Inl e \<Rightarrow> (Inl e, c)
                     | Inr f \<Rightarrow> send_raw_chunks c chunk_size f file_size))"

subsection \<open>Python operations on decoded JSON\<close>

text \<open>\<open>d.get(k, default)\<close>: only a dict has the method.\<close>

fun py_get :: "json \<Rightarrow> string \<Rightarrow> json \<Rightarrow> json result" where
  "py_get (JObj kvs) k d = Inr (case map_of kvs k of None \<Rightarrow> d | Some v \<Rightarrow> v)"
| "py_get j k d = Inl AttributeError"

text \<open>The truth value of an object in a condition.\<close>

fun truthy :: "json \<Rightarrow> bool" where
  "truthy JNull = False"
| "truthy (JBool b) = b"
| "truthy (JInt i) = (i \<noteq> 0)"
| "truthy (JFloat r) = (r \<noteq> 0)"
| "truthy (JStr s) = (s \<noteq> [])"
| "truthy (JArr xs) = (xs \<noteq> [])"
| "truthy (JObj kvs) = (kvs \<noteq> [])"

text \<open>
  The items a \<open>for\<close> loop visits: the elements of a list, the keys of a dict, the
  characters of a string; anything else is not iterable.
\<close>

fun py_iter :: "json \<Rightarrow> json list result" where
  "py_iter (JArr xs) = Inr xs"
| "py_iter (JObj kvs) = Inr (map (\<lambda>kv. JStr (fst kv)) kvs)"
| "py_iter (JStr s) = Inr (map (\<lambda>ch. JStr [ch]) s)"
| "py_iter j = Inl TypeError"

definition bind_result :: "'a result \<Rightarrow> ('a \<Rightarrow> 'b result) \<Rightarrow> 'b result" where
  "bind_result r f = (case r of Inl e \<Rightarrow> Inl e | Inr x \<Rightarrow> f x)"

subsection \<open>Inbound messages and the console\<close>

text \<open>
  An inbound message is represented by what \<open>json.loads\<close> does with it: it decodes to
  a value, it is text that is not JSON, or it is a binary frame that is not UTF-8.
\<close>

datatype inbound = Decodes json | NotJson | NotUtf8

fun json_loads :: "inbound \<Rightarrow> json result" where
  "json_loads (Decodes j) = Inr j"
| "json_loads NotJson = Inl JSONDecodeError"
| "json_loads NotUtf8 = Inl UnicodeDecodeError"

text \<open>
  How the message iterator ends: the closing handshake completed (the \<open>async for\<close>
  stops) or the connection broke (the iterator raises \<open>ConnectionClosed\<close>).
\<close>

datatype stream_end = ClosedOK | ClosedError

text \<open>
  The lines the receive path prints, which is the only place the client hands results
  to. The status label of a result line is the truth value of \<open>sentence_end\<close>.
\<close>

datatype line =
    ListeningLine
  | TaskStartedLine
  | ReceivedResultLine json
  | TranscriptionLine bool json json
  | TranslationLine json bool json json
  | TextLine json
  | BlankLine
  | TaskFinishedLine
  | TaskFailedLine
  | ErrorCodeLine json
  | ErrorMessageLine json
  | TooLongHintLine
  | DetailLine json
  | JSONErrorLine
  | ConnectionClosedLine

subsection \<open>Handling results\<close>

text \<open>
  \<open>_handle_result\<close>, in three parts: \<open>transcription_lines\<close> is the body of
  \<open>if transcription:\<close>, \<open>translation_lines\<close> the body of the loop over
  \<open>translations\<close>, and \<open>handle_result\<close> the function itself. In each part all the
  lookups come before the first \<open>print\<close>.
\<close>

definition transcription_lines :: "json \<Rightarrow> line list result" where
  "transcription_lines transcription =
     bind_result (py_get transcription ''text'' (JStr [])) (\<lambda>text.
     bind_result (py_get transcription ''sentence_end'' (JBool False)) (\<lambda>sentence_end.
     bind_result (py_get transcription ''begin_time'' (JInt 0)) (\<lambda>begin_time.
     bind_result (py_get transcription ''end_time'' (JInt 0)) (\<lambda>end_time.
       Inr [TranscriptionLine (truthy sentence_end) begin_time end_time, TextLine text]))))"

definition translation_lines :: "json \<Rightarrow> line list result" where
  "translation_lines translation =
     bind_result (py_get translation ''lang'' (JStr [])) (\<lambda>lang.
     bind_result (py_get translation ''text'' (JStr [])) (\<lambda>text.
     bind_result (py_get translation ''sentence_end'' (JBool False)) (\<lambda>sentence_end.
     bind_result (py_get translation ''begin_time'' (JInt 0)) (\<lambda>begin_time.
     bind_result (py_get translation ''end_time'' (JInt 0)) (\<lambda>end_time.
       Inr [TranslationLine lang (truthy sentence_end) begin_time end_time,
            TextLine text])))))"

text \<open>The loop over \<open>translations\<close>; the lines printed before an error stay printed.\<close>

fun print_translations :: "json list \<Rightarrow> unit result \<times> line list" where
  "print_translations [] = (Inr (), [])"
| "print_translations (translation # rest) =
     (case translation_lines translation of
        Inl e \<Rightarrow> (Inl e, [])
      | Inr ls \<Rightarrow> (case print_translations rest of (r, ls') \<Rightarrow> (r, ls @ ls')))"

definition handle_result :: "json \<Rightarrow> unit result \<times> line list" where
  "handle_result event =
     (case bind_result (py_get event ''payload'' (JObj []))
             (\<lambda>payload. py_get payload ''output'' (JObj [])) of
        Inl e \<Rightarrow> (Inl e, [])
      | Inr output \<Rightarrow>
          (let out1 = [ReceivedResultLine event] in
           case py_get output ''transcription'' (JObj []) of
             Inl e \<Rightarrow> (Inl e, out1)
           | Inr transcription \<Rightarrow>
               (case (if truthy transcription then transcription_lines transcription
                      else Inr []) of
                  Inl e \<Rightarrow> (Inl e, out1)
                | Inr ls \<Rightarrow>
                    (let out2 = out1 @ ls in
                     case bind_result (py_get output ''translations'' (JArr [])) py_iter of
                       Inl e \<Rightarrow> (Inl e, out2)
                     | Inr items \<Rightarrow>
                         (case print_translations items of
                            (Inl e, ls') \<Rightarrow> (Inl e, out2 @ ls')
                          | (Inr u, ls') \<Rightarrow> (Inr (), out2 @ ls' @ [BlankLine]))))))"

subsection \<open>The receive loop\<close>

datatype flow = Continue | Break

text \<open>
  \<open>receive_messages\<close>. \<open>handle_message\<close> is one iteration of the \<open>async for\<close>
  body: the inner handler catches \<open>json.JSONDecodeError\<close> and nothing else, and an
  event type that matches none of the four branches is passed over. \<open>receive_loop\<close>
  is the loop over the messages the connection delivers, with the outer handler for
  \<open>ConnectionClosed\<close> at its end.
\<close>

definition handle_message :: "inbound \<Rightarrow> flow result \<times> line list" where
  "handle_message message =
     (case json_loads message of
        Inl e \<Rightarrow> if e = JSONDecodeError then (Inr Continue, [JSONErrorLine]) else (Inl e, [])
      | Inr event \<Rightarrow>
          (case bind_result (py_get event ''header'' (JObj []))
                  (\<lambda>header. py_get header ''event'' JNull) of
             Inl e \<Rightarrow> (Inl e, [])
           | Inr event_type \<Rightarrow>
               if event_type = JStr ''task-started'' then (Inr Continue, [TaskStartedLine])
               else if event_type = JStr ''result-generated'' then
                 (case handle_result event of
                    (Inl e, ls) \<Rightarrow> (Inl e, ls)
                  | (Inr u, ls) \<Rightarrow> (Inr Continue, ls))
               else if event_type = JStr ''task-finished'' then (Inr Break, [TaskFinishedLine])
               else if event_type = JStr ''task-failed'' then
                 (case bind_result (py_get event ''header'' (JObj []))
                         (\<lambda>header. py_get header ''error_code'' (JStr ''UNKNOWN'')) of
                    Inl e \<Rightarrow> (Inl e, [])
                  | Inr error_code \<Rightarrow>
                      (case bind_result (py_get event ''header'' (JObj []))
                              (\<lambda>header. py_get header ''error_message'' (JStr [])) of
                         Inl e \<Rightarrow> (Inl e, [])
                       | Inr error_message \<Rightarrow>
                           (Inr Break,
                            [TaskFailedLine, ErrorCodeLine error_code,
                             ErrorMessageLine error_message]
                            @ (if error_code = JStr ''TOO_LONG_SPEECH''
                               then [TooLongHintLine] else [])
                            @ [DetailLine event])))
               else (Inr Continue, [])))"

fun receive_loop :: "inbound list \<Rightarrow> stream_end \<Rightarrow> unit result \<times> line list" where
  "receive_loop [] ClosedOK = (Inr (), [])"
| "receive_loop [] ClosedError = (Inr (), [ConnectionClosedLine])"
| "receive_loop (message # rest) e =
     (case handle_message message of
        (Inl x, ls) \<Rightarrow> (Inl x, ls)
      | (Inr Break, ls) \<Rightarrow> (Inr (), ls)
      | (Inr Continue, ls) \<Rightarrow> (case receive_loop rest e of (r, ls') \<Rightarrow> (r, ls @ ls')))"

definition receive_messages :: "inbound list \<Rightarrow> stream_end \<Rightarrow> unit result \<times> line list" where
  "receive_messages incoming e =
     (case receive_loop incoming e of (r, ls) \<Rightarrow> (r, ListeningLine # ls))"

subsection \<open>The driver\<close>

text \<open>
  \<open>test_with_audio_file\<close>. The receive task only reads the connection and prints, so
  the frames written are those of the four steps below, in this order. An outcome
  records the exception the handler caught (if any), the client after \<open>close\<close>, and
  the lines of the receive task when the driver got as far as awaiting it. The
  microphone driver, whose audio comes from a capture device, is not modelled.
\<close>

record outcome =
  caught :: "exn option"
  final_client :: client
  receiver_lines :: "line list option"

definition test_with_audio_file ::
  "server \<Rightarrow> filesystem \<Rightarrow> inbound list \<Rightarrow> stream_end \<Rightarrow> string \<Rightarrow>
   string \<Rightarrow> string \<Rightarrow> string \<Rightarrow> outcome" where
  "test_with_audio_file srv fs incoming e uuid4 key audio_file target_lang =
     (case connect srv (init key uuid4) of
        (Inl x, c1) \<Rightarrow>
          \<lparr>caught = Some x, final_client = close c1, receiver_lines = None\<rparr>
      | (Inr u1, c1) \<Rightarrow>
     (case send_run_task c1 target_lang ''auto'' 16000 ''pcm'' 10000 True of
        (Inl x, c2) \<Rightarrow>
          \<lparr>caught = Some x, final_client = close c2, receiver_lines = None\<rparr>
      | (Inr u2, c2) \<Rightarrow>
     (case send_audio_data fs c2 audio_file 3200 of
        (Inl x, c3) \<Rightarrow>
          \<lparr>caught = Some x, final_client = close c3, receiver_lines = None\<rparr>
      | (Inr u3, c3) \<Rightarrow>
     (case send_finish_task c3 of
        (Inl x, c4) \<Rightarrow>
          \<lparr>caught = Some x, final_client = close c4, receiver_lines = None\<rparr>
      | (Inr u4, c4) \<Rightarrow>
     (case receive_messages incoming e of
        (Inl x, ls) \<Rightarrow>
          \<lparr>caught = Some x, final_client = close c4, receiver_lines = Some ls\<rparr>
      | (Inr u5, ls) \<Rightarrow>
          \<lparr>caught = None, final_client = close c4, receiver_lines = Some ls\<rparr>)))))"

section \<open>Vocabulary of the properties\<close>

text \<open>
  The definitions of this section are not translations of source functions; they name
  what the properties below talk about.
\<close>

text \<open>The ordered log of the frames a client has written on its connection.\<close>

definition sent :: "client \<Rightarrow> frame list" where
  "sent c = (case websocket c of None \<Rightarrow> [] | Some ws \<Rightarrow> outbound ws)"

text \<open>The connection is open and the peer accepts at least \<open>n\<close> more writes.\<close>

definition accepts_writes :: "connection \<Rightarrow> nat \<Rightarrow> bool" where
  "accepts_writes ws n =
     (\<not> closed ws \<and> (case sends_left ws of None \<Rightarrow> True | Some k \<Rightarrow> n \<le> k))"

definition writable :: "client \<Rightarrow> nat \<Rightarrow> bool" where
  "writable c n = (case websocket c of None \<Rightarrow> False | Some ws \<Rightarrow> accepts_writes ws n)"

text \<open>A byte sequence cut into consecutive pieces of \<open>n\<close> bytes, the last one shorter.\<close>

function chunks :: "nat \<Rightarrow> 'a list \<Rightarrow> 'a list list" where
  "chunks n xs = (if n = 0 \<or> xs = [] then [] else take n xs # chunks n (drop n xs))"
  by pat_completeness auto
termination
  by (relation "measure (\<lambda>(n, xs). length xs)") auto

declare chunks.simps [simp del]

text \<open>\<open>ceil(N/C)\<close> as the specification writes it.\<close>

definition ceil_div :: "nat \<Rightarrow> nat \<Rightarrow> nat" where
  "ceil_div N C = nat \<lceil>(of_nat N :: rat) / of_nat C\<rceil>"

text \<open>
  The audio duration as the specification defines it, in seconds:
  bytes / (sample width * channels * sample rate).
\<close>

definition spec_duration :: "nat \<Rightarrow> nat \<Rightarrow> nat \<Rightarrow> nat \<Rightarrow> rat" where
  "spec_duration nbytes sample_width channels sample_rate =
     of_nat nbytes / of_nat (sample_width * channels * sample_rate)"

text \<open>Reading a field of a control message through a path of keys.\<close>

fun json_at :: "string list \<Rightarrow> json \<Rightarrow> json option" where
  "json_at [] j = Some j"
| "json_at (k # ks) (JObj kvs) =
     (case map_of kvs k of None \<Rightarrow> None | Some v \<Rightarrow> json_at ks v)"
| "json_at (k # ks) j = None"

fun is_audio :: "frame \<Rightarrow> bool" where
  "is_audio (BinaryFrame b) = True"
| "is_audio (TextFrame j) = False"

fun has_action :: "string \<Rightarrow> frame \<Rightarrow> bool" where
  "has_action a (TextFrame j) = (json_at [''header'', ''action''] j = Some (JStr a))"
| "has_action a (BinaryFrame b) = False"

fun carries_task_id :: "string \<Rightarrow> frame \<Rightarrow> bool" where
  "carries_task_id tid (TextFrame j) = (json_at [''header'', ''task_id''] j = Some (JStr tid))"
| "carries_task_id tid (BinaryFrame b) = True"

text \<open>
  The sequencing invariant on a message log: one run-task message, one finish-task
  message, and every binary frame strictly after the former and strictly before the
  latter.
\<close>

definition sequenced :: "frame list \<Rightarrow> bool" where
  "sequenced msgs =
     (length (filter (has_action ''run-task'') msgs) = 1 \<and>
      length (filter (has_action ''finish-task'') msgs) = 1 \<and>
      (\<forall>i < length msgs. is_audio (msgs ! i) \<longrightarrow>
         (\<exists>a < i. has_action ''run-task'' (msgs ! a)) \<and>
         (\<exists>b < length msgs. i < b \<and> has_action ''finish-task'' (msgs ! b))))"

text \<open>The peer keeps the connection open for at least \<open>n\<close> frames.\<close>

definition stays_open :: "server \<Rightarrow> nat \<Rightarrow> bool" where
  "stays_open srv n = (case close_after srv of None \<Rightarrow> True | Some k \<Rightarrow> n \<le> k)"

text \<open>
  The audio bytes of a file as \<open>send_audio_data\<close> reads them (the payload of the data
  chunk under a name ending in \<open>.wav\<close>, the whole file otherwise), and the number of
  bytes it puts into one frame for a chunk size.
\<close>

definition pcm_bytes :: "string \<Rightarrow> fs_entry \<Rightarrow> bytes" where
  "pcm_bytes path entry =
     (case entry of
        Directory n \<Rightarrow> []
      | RegularFile bs wv \<Rightarrow>
          if endswith path ''.wav''
          then (case wv of None \<Rightarrow> [] | Some w \<Rightarrow> data_chunk w)
          else bs)"

definition frame_bytes :: "string \<Rightarrow> fs_entry \<Rightarrow> int \<Rightarrow> nat" where
  "frame_bytes path entry chunk_size =
     (case entry of
        Directory n \<Rightarrow> 0
      | RegularFile bs wv \<Rightarrow>
          if endswith path ''.wav''
          then (case wv of
                  None \<Rightarrow> 0
                | Some w \<Rightarrow>
                    nat (chunk_size div int (sampwidth w * nchannels w))
                      * (nchannels w * sampwidth w))
          else nat chunk_size)"

text \<open>The frames a file is cut into for a chunk size.\<close>

definition audio_frames :: "string \<Rightarrow> fs_entry \<Rightarrow> int \<Rightarrow> bytes list" where
  "audio_frames path entry chunk_size =
     chunks (frame_bytes path entry chunk_size) (pcm_bytes path entry)"

text \<open>
  An audio file the client streams to the end: a regular file; under a name ending in
  \<open>.wav\<close> a container the library opens, with a positive frame rate, at most 60
  seconds of frames, and no data chunk shorter than one frame; under any other name at
  most 1920000 bytes, which is 60 seconds at 16 kHz, 16 bit, mono.
\<close>

definition streamable :: "string \<Rightarrow> fs_entry \<Rightarrow> bool" where
  "streamable path entry =
     (case entry of
        Directory n \<Rightarrow> False
      | RegularFile bs wv \<Rightarrow>
          if endswith path ''.wav''
          then (case wv of
                  None \<Rightarrow> False
                | Some w \<Rightarrow>
                    0 < nchannels w \<and> 0 < sampwidth w \<and> 0 < framerate w \<and>
                    getnframes w \<le> 60 * framerate w \<and>
                    (data_chunk w = [] \<or> 0 < getnframes w))
          else length bs \<le> 1920000)"

text \<open>
  The duration the client computes exceeds 60 seconds: for a WAV container the whole
  frames of the data chunk at the header's sample width, channel count and frame rate;
  for any other file its size at 16 kHz, 16 bit, mono, whatever the recording is.
\<close>

definition too_long :: "string \<Rightarrow> fs_entry \<Rightarrow> bool" where
  "too_long path entry =
     (case entry of
        Directory n \<Rightarrow> False
      | RegularFile bs wv \<Rightarrow>
          if endswith path ''.wav''
          then (case wv of
                  None \<Rightarrow> False
                | Some w \<Rightarrow>
                    0 < nchannels w \<and> 0 < sampwidth w \<and> 0 < framerate w \<and>
                    spec_duration (getnframes w * (sampwidth w * nchannels w))
                      (sampwidth w) (nchannels w) (framerate w) > 60)
          else spec_duration (length bs) 2 1 16000 > 60)"

subsection \<open>Inbound events\<close>

text \<open>
  The event kind the receive loop reads from a message, \<open>header.event\<close>, when the
  message decodes and the two lookups do not raise.
\<close>

fun event_type :: "inbound \<Rightarrow> json option" where
  "event_type (Decodes ev) =
     (case bind_result (py_get ev ''header'' (JObj []))
             (\<lambda>header. py_get header ''event'' JNull) of
        Inl e \<Rightarrow> None
      | Inr t \<Rightarrow> Some t)"
| "event_type NotJson = None"
| "event_type NotUtf8 = None"

definition is_result :: "inbound \<Rightarrow> bool" where
  "is_result m = (event_type m = Some (JStr ''result-generated''))"

text \<open>A terminal event: \<open>task-finished\<close> or \<open>task-failed\<close>.\<close>

definition terminal :: "inbound \<Rightarrow> bool" where
  "terminal m =
     (event_type m = Some (JStr ''task-finished'') \<or>
      event_type m = Some (JStr ''task-failed''))"

fun is_object :: "json \<Rightarrow> bool" where
  "is_object (JObj kvs) = True"
| "is_object j = False"

text \<open>The entry of a key in an object, or a default.\<close>

definition lookup_or :: "(string \<times> json) list \<Rightarrow> string \<Rightarrow> json \<Rightarrow> json" where
  "lookup_or kvs k d = (case map_of kvs k of None \<Rightarrow> d | Some v \<Rightarrow> v)"

text \<open>
  A value the loop over \<open>translations\<close> gets through: a list of objects, or an empty
  dict or string, which have nothing to visit.
\<close>

fun objects_only :: "json \<Rightarrow> bool" where
  "objects_only (JArr ts) = list_all is_object ts"
| "objects_only (JObj kvs) = (kvs = [])"
| "objects_only (JStr s) = (s = [])"
| "objects_only j = False"

text \<open>
  A result event the handler reads to the end: \<open>payload\<close> and \<open>payload.output\<close> are
  objects when present, \<open>transcription\<close> is an object or a value that counts as false
  (\<open>null\<close>, say), and \<open>translations\<close> is a list of objects. This is the data model's
  \<open>ResultGenerated\<close> with both fields optional.
\<close>

definition readable_result :: "json \<Rightarrow> bool" where
  "readable_result ev =
     (case ev of
        JObj kvs \<Rightarrow>
          (case lookup_or kvs ''payload'' (JObj []) of
             JObj payload \<Rightarrow>
               (case lookup_or payload ''output'' (JObj []) of
                  JObj outp \<Rightarrow>
                    (is_object (lookup_or outp ''transcription'' (JObj [])) \<or>
                     \<not> truthy (lookup_or outp ''transcription'' (JObj []))) \<and>
                    objects_only (lookup_or outp ''translations'' (JArr []))
                | j \<Rightarrow> False)
           | j \<Rightarrow> False)
      | j \<Rightarrow> False)"

text \<open>
  A message the receive loop is written for: text that is not JSON, or a JSON object
  whose \<open>header\<close>, when present, is an object and which, when it is a result event,
  is one the handler reads to the end. On every other message the loop ends with an
  exception.
\<close>

fun expected :: "inbound \<Rightarrow> bool" where
  "expected NotJson = True"
| "expected NotUtf8 = False"
| "expected (Decodes (JObj kvs)) =
     ((case map_of kvs ''header'' of None \<Rightarrow> True | Some h \<Rightarrow> is_object h) \<and>
      (if is_result (Decodes (JObj kvs)) then readable_result (JObj kvs) else True))"
| "expected (Decodes j) = False"

text \<open>
  The result events among inbound messages, in arrival order, and the result events
  handed to the console, in print order.
\<close>

fun result_events :: "inbound list \<Rightarrow> json list" where
  "result_events [] = []"
| "result_events (Decodes ev # ms) =
     (if is_result (Decodes ev) then ev # result_events ms else result_events ms)"
| "result_events (m # ms) = result_events ms"

fun results_delivered :: "line list \<Rightarrow> json list" where
  "results_delivered [] = []"
| "results_delivered (ReceivedResultLine ev # ls) = ev # results_delivered ls"
| "results_delivered (l # ls) = results_delivered ls"

text \<open>The error code and message the \<open>task-failed\<close> branch reads from an event.\<close>

definition error_code_of :: "json \<Rightarrow> json" where
  "error_code_of ev =
     (case json_at [''header'', ''error_code''] ev of None \<Rightarrow> JStr ''UNKNOWN'' | Some c \<Rightarrow> c)"

definition error_message_of :: "json \<Rightarrow> json" where
  "error_message_of ev =
     (case json_at [''header'', ''error_message''] ev of None \<Rightarrow> JStr [] | Some c \<Rightarrow> c)"

subsection \<open>What the result sink is owed\<close>

text \<open>
  The sink has two channels, recognition text and translation text, each carrying the
  text, the final flag, the begin and end times and, for a translation, the language.
  On the console a recognition result is a \<open>TranscriptionLine\<close> followed by its
  text, a translation a \<open>TranslationLine\<close> followed by its text; absent fields take
  the defaults. These functions read an event through its paths and do not use the
  handler.
\<close>

fun recognition_report :: "json \<Rightarrow> line list" where
  "recognition_report (JObj t) =
     (if t = [] then []
      else [TranscriptionLine (truthy (lookup_or t ''sentence_end'' (JBool False)))
              (lookup_or t ''begin_time'' (JInt 0)) (lookup_or t ''end_time'' (JInt 0)),
            TextLine (lookup_or t ''text'' (JStr []))])"
| "recognition_report j = []"

fun translation_report :: "json \<Rightarrow> line list" where
  "translation_report (JObj t) =
     [TranslationLine (lookup_or t ''lang'' (JStr []))
        (truthy (lookup_or t ''sentence_end'' (JBool False)))
        (lookup_or t ''begin_time'' (JInt 0)) (lookup_or t ''end_time'' (JInt 0)),
      TextLine (lookup_or t ''text'' (JStr []))]"
| "translation_report j = []"

text \<open>
  Everything owed for one result event: the event itself, its recognition result, each
  of its translations in the order of the list, and the separating blank line.
\<close>

definition result_report :: "json \<Rightarrow> line list" where
  "result_report ev =
     ReceivedResultLine ev
     # (case json_at [''payload'', ''output'', ''transcription''] ev of
          None \<Rightarrow> []
        | Some t \<Rightarrow> recognition_report t)
     @ (case json_at [''payload'', ''output'', ''translations''] ev of
          Some (JArr ts) \<Rightarrow> concat (map translation_report ts)
        | r \<Rightarrow> [])
     @ [BlankLine]"

text \<open>
  Everything owed for one message: the acknowledgement notice, the report of a result,
  the notice of a terminal event (with the error code and message of a failure), the
  notice for text that is not JSON, nothing for any other event.
\<close>

fun console_report :: "inbound \<Rightarrow> line list" where
  "console_report NotJson = [JSONErrorLine]"
| "console_report NotUtf8 = []"
| "console_report (Decodes ev) =
     (if event_type (Decodes ev) = Some (JStr ''task-started'') then [TaskStartedLine]
      else if event_type (Decodes ev) = Some (JStr ''result-generated'') then result_report ev
      else if event_type (Decodes ev) = Some (JStr ''task-finished'') then [TaskFinishedLine]
      else if event_type (Decodes ev) = Some (JStr ''task-failed'') then
        [TaskFailedLine, ErrorCodeLine (error_code_of ev),
         ErrorMessageLine (error_message_of ev)]
        @ (if error_code_of ev = JStr ''TOO_LONG_SPEECH'' then [TooLongHintLine] else [])
        @ [DetailLine ev]
      else [])"

section \<open>Concrete inputs\<close>

text \<open>A client whose connection is open and stays open.\<close>

definition open_client :: client where
  "open_client =
     (init ''sk-test'' ''0f8fad5b-d9cb-469f-a165-70867728950e'')
       \<lparr>websocket := Some \<lparr>outbound = [], sends_left = None, closed = False\<rparr>\<rparr>"

text \<open>A server that accepts every handshake and never closes the connection.\<close>

definition patient_server :: server where
  "patient_server = \<lparr>accepts = (\<lambda>u hs. True), close_after = None\<rparr>"

text \<open>
  Five bytes of raw audio; a 24-bit mono recording of 2133 frames at 16 kHz in a WAV
  container; a raw 16-bit mono recording at 8 kHz of 1000000 bytes, which lasts 62.5
  seconds; a raw file of 1920002 bytes, a little over 60 seconds at 16 kHz, 16 bit.
\<close>

definition wav24 :: wave_read where
  "wav24 = \<lparr>nchannels = 1, sampwidth = 3, framerate = 16000,
            data_chunk = replicate 6399 0\<rparr>"

definition example_fs :: filesystem where
  "example_fs =
     [''hello.pcm'' \<mapsto> RegularFile [1, 2, 3, 4, 5] None,
      ''speech24.wav'' \<mapsto> RegularFile (replicate 44 0 @ replicate 6399 0) (Some wav24),
      ''narrowband.pcm'' \<mapsto> RegularFile (replicate 1000000 0) None,
      ''long.pcm'' \<mapsto> RegularFile (replicate 1920002 0) None]"

text \<open>A run of the driver on the five-byte file, with no inbound traffic.\<close>

definition example_session :: outcome where
  "example_session =
     test_with_audio_file patient_server example_fs [] ClosedOK
       ''0f8fad5b-d9cb-469f-a165-70867728950e'' ''sk-test'' ''hello.pcm'' ''en''"

text \<open>
  Inbound events: the acknowledgement, two partial results and a final one for the same
  sentence, the two terminal events, and the failure the service reports for audio that
  is too long.
\<close>

definition task_started :: json where
  "task_started = JObj [(''header'', JObj [(''event'', JStr ''task-started'')])]"

definition result_event :: "string \<Rightarrow> bool \<Rightarrow> json" where
  "result_event text final =
     JObj [(''header'', JObj [(''event'', JStr ''result-generated'')]),
           (''payload'',
              JObj [(''output'',
                 JObj [(''transcription'',
                          JObj [(''text'', JStr text),
                                (''sentence_end'', JBool final),
                                (''begin_time'', JInt 0),
                                (''end_time'', JInt 1200)]),
                       (''translations'', JArr [])])])]"

definition task_finished :: json where
  "task_finished = JObj [(''header'', JObj [(''event'', JStr ''task-finished'')])]"

definition task_failed :: json where
  "task_failed =
     JObj [(''header'',
              JObj [(''event'', JStr ''task-failed''),
                    (''error_code'', JStr ''TOO_LONG_SPEECH''),
                    (''error_message'', JStr ''speech is too long'')])]"

text \<open>
  A result with a recognition text and its English translation, and the scripted
  server: the acknowledgement, two partial results and the final one, the completion.
\<close>

definition sentence_event :: "string \<Rightarrow> string \<Rightarrow> bool \<Rightarrow> json" where
  "sentence_event text english final =
     JObj [(''header'', JObj [(''event'', JStr ''result-generated'')]),
           (''payload'',
              JObj [(''output'',
                 JObj [(''transcription'',
                          JObj [(''text'', JStr text),
                                (''sentence_end'', JBool final),
                                (''begin_time'', JInt 0),
                                (''end_time'', JInt 1200)]),
                       (''translations'',
                          JArr [JObj [(''lang'', JStr ''en''),
                                      (''text'', JStr english),
                                      (''sentence_end'', JBool final),
                                      (''begin_time'', JInt 0),
                                      (''end_time'', JInt 1200)]])])])]"

definition scripted_server :: "inbound list" where
  "scripted_server =
     [Decodes task_started,
      Decodes (sentence_event ''ni'' ''he'' False),
      Decodes (sentence_event ''ni hao shi'' ''hello wor'' False),
      Decodes (sentence_event ''ni hao shijie'' ''hello world'' True),
      Decodes task_finished]"

section \<open>Lemmas about the connection and the loops\<close>

lemma websocket_send_ok:
  assumes "writable c (Suc n)"
  shows "fst (websocket_send c m) = Inr ()"
    and "sent (snd (websocket_send c m)) = sent c @ [m]"
    and "writable (snd (websocket_send c m)) n"
    and "task_id (snd (websocket_send c m)) = task_id c"
  using assms
  by (auto simp: writable_def accepts_writes_def websocket_send_def ws_send_def sent_def
      split: option.splits nat.splits)

lemma websocket_send_keeps:
  assumes "websocket_send c m = (r, c')"
  shows "task_id c' = task_id c" and "sent c' = sent c \<or> sent c' = sent c @ [m]"
    and "r \<noteq> Inr () \<Longrightarrow> sent c' = sent c"
  using assms
  by (auto simp: websocket_send_def ws_send_def sent_def split: option.splits nat.splits if_splits)

lemma chunks_Nil: "chunks n [] = []"
  by (simp add: chunks.simps)

lemma chunks_step:
  "0 < n \<Longrightarrow> xs \<noteq> [] \<Longrightarrow> chunks n xs = take n xs # chunks n (drop n xs)"
  by (subst chunks.simps) simp

lemma concat_chunks: "0 < n \<Longrightarrow> concat (chunks n xs) = xs"
proof (induction n xs rule: chunks.induct)
  case (1 n xs)
  then show ?case by (subst chunks.simps) simp
qed

lemma length_chunks: "0 < n \<Longrightarrow> length (chunks n xs) = (length xs + n - 1) div n"
proof (induction n xs rule: chunks.induct)
  case (1 n xs)
  show ?case
  proof (cases "xs = []")
    case True
    from 1(2) have "(n - 1) div n = 0" by simp
    with True show ?thesis by (simp add: chunks_Nil)
  next
    case False
    then have pos: "0 < length xs" by simp
    from 1(2) False have ch: "chunks n xs = take n xs # chunks n (drop n xs)"
      by (rule chunks_step)
    from 1(2) False have "\<not> (n = 0 \<or> xs = [])" by simp
    from 1(1) [OF this 1(2)]
    have ih: "length (chunks n (drop n xs)) = (length xs - n + n - 1) div n"
      by (simp only: length_drop)
    have len: "length (chunks n xs) = Suc ((length xs - n + n - 1) div n)"
      unfolding ch by (simp add: ih)
    show ?thesis
    proof (cases "n \<le> length xs")
      case True
      with pos have "length xs + n - 1 = (length xs - 1) + n" "length xs - n + n - 1 = length xs - 1"
        by simp_all
      moreover from 1(2) have "(length xs - 1 + n) div n = (length xs - 1) div n + 1"
        by (intro div_add_self2) simp
      ultimately have "(length xs + n - 1) div n = Suc ((length xs - n + n - 1) div n)"
        by (simp only: Suc_eq_plus1)
      with len show ?thesis by (simp only:)
    next
      case False
      with pos have "n * 1 \<le> length xs + n - 1" "length xs + n - 1 < n * Suc 1"
        by arith+
      then have a: "(length xs + n - 1) div n = 1"
        by (rule div_nat_eqI)
      from False have "length xs - n + n - 1 = n - 1" by simp
      with 1(2) have b: "(length xs - n + n - 1) div n = 0" by simp
      from len a b show ?thesis by simp
    qed
  qed
qed

lemma ceil_div_eq: "0 < C \<Longrightarrow> ceil_div N C = (N + C - 1) div C"
proof -
  assume C: "0 < C"
  define q where "q = (N + C - 1) div C"
  have lo: "q * C \<le> N + C - 1" unfolding q_def by simp
  have hi: "N + C - 1 < q * C + C" unfolding q_def using C
    by (metis add.commute dividend_less_div_times mult.commute)
  from hi C have up: "N \<le> q * C" by simp
  define p where "p = q * C"
  have low: "int p - int C < int N"
    using lo C unfolding p_def [symmetric] by linarith
  have "\<lceil>(of_nat N :: rat) / of_nat C\<rceil> = int q"
  proof (rule ceiling_unique)
    have "(of_int (int p - int C) :: rat) < of_int (int N)"
      using low by (simp only: of_int_less_iff)
    then have "(of_int (int q) - 1) * (of_nat C :: rat) < of_nat N"
      by (simp add: p_def left_diff_distrib)
    then show "of_int (int q) - 1 < (of_nat N :: rat) / of_nat C"
      using C by (simp add: pos_less_divide_eq)
    have "(of_nat N :: rat) \<le> of_int (int q) * of_nat C"
      using up by (metis of_int_of_nat_eq of_nat_le_iff of_nat_mult)
    then show "(of_nat N :: rat) / of_nat C \<le> of_int (int q)"
      using C by (simp add: pos_divide_le_eq)
  qed
  then show ?thesis by (simp add: ceil_div_def q_def)
qed

lemma send_raw_chunks_ok:
  assumes "0 < chunk_size"
    and "writable c (length (chunks (nat chunk_size) f) + k)"
    and "f \<noteq> [] \<longrightarrow> 0 < file_size"
  shows "fst (send_raw_chunks c chunk_size f file_size) = Inr () \<and>
         sent (snd (send_raw_chunks c chunk_size f file_size)) =
           sent c @ map BinaryFrame (chunks (nat chunk_size) f) \<and>
         writable (snd (send_raw_chunks c chunk_size f file_size)) k \<and>
         task_id (snd (send_raw_chunks c chunk_size f file_size)) = task_id c"
  using assms
proof (induction c chunk_size f file_size rule: send_raw_chunks.induct)
  case (1 c chunk_size f file_size)
  let ?n = "nat chunk_size"
  from 1(2) have n: "0 < ?n" by simp
  show ?case
  proof (cases "f = []")
    case True
    with 1(2,3) show ?thesis
      by (subst (1 2 3 4) send_raw_chunks.simps) (simp add: file_read_def chunks_Nil)
  next
    case False
    let ?data = "take ?n f" and ?f' = "drop ?n f"
    obtain r c' where ws: "websocket_send c (BinaryFrame ?data) = (r, c')"
      by (cases "websocket_send c (BinaryFrame ?data)")
    from n False have ch: "chunks ?n f = ?data # chunks ?n ?f'" by (rule chunks_step)
    from False n have ne: "?data \<noteq> []" by simp
    from 1(3) ch have w: "writable c (Suc (length (chunks ?n ?f') + k))" by simp
    from websocket_send_ok [OF w, of "BinaryFrame ?data"] ws
    have r: "r = Inr ()" and s: "sent c' = sent c @ [BinaryFrame ?data]"
      and w': "writable c' (length (chunks ?n ?f') + k)" and t: "task_id c' = task_id c"
      by simp_all
    from 1(4) False have fs: "0 < file_size" by simp
    have rd: "file_read f chunk_size = Inr (?data, ?f')"
      using 1(2) by (simp add: file_read_def)
    have ih: "fst (send_raw_chunks c' chunk_size ?f' file_size) = Inr () \<and>
         sent (snd (send_raw_chunks c' chunk_size ?f' file_size)) =
           sent c' @ map BinaryFrame (chunks ?n ?f') \<and>
         writable (snd (send_raw_chunks c' chunk_size ?f' file_size)) k \<and>
         task_id (snd (send_raw_chunks c' chunk_size ?f' file_size)) = task_id c'"
      using 1(1) [OF rd refl ne ws [symmetric] r] fs 1(2) w' by simp
    have step: "send_raw_chunks c chunk_size f file_size =
                send_raw_chunks c' chunk_size ?f' file_size"
      using rd ne ws r fs by (subst send_raw_chunks.simps) simp
    show ?thesis unfolding step using ih s t ch by simp
  qed
qed

lemma send_wav_frames_ok:
  assumes "0 < frames_per_chunk" and "0 < framesize"
    and "writable c (length (chunks (nat frames_per_chunk * framesize) rest) + k)"
    and "rest \<noteq> [] \<longrightarrow> 0 < total_frames"
  shows "fst (send_wav_frames c framesize frames_per_chunk total_frames rest) = Inr () \<and>
         sent (snd (send_wav_frames c framesize frames_per_chunk total_frames rest)) =
           sent c @ map BinaryFrame (chunks (nat frames_per_chunk * framesize) rest) \<and>
         writable (snd (send_wav_frames c framesize frames_per_chunk total_frames rest)) k \<and>
         task_id (snd (send_wav_frames c framesize frames_per_chunk total_frames rest)) =
           task_id c"
  using assms
proof (induction c framesize frames_per_chunk total_frames rest rule: send_wav_frames.induct)
  case (1 c framesize frames_per_chunk total_frames rest)
  let ?n = "nat frames_per_chunk * framesize"
  from 1(2,3) have n: "0 < ?n" by simp
  have sz: "nat (frames_per_chunk * int framesize) = ?n"
    using 1(2) by (simp add: nat_mult_distrib)
  have nonneg: "\<not> frames_per_chunk * int framesize < 0"
    using 1(2) by (simp add: mult_less_0_iff)
  have rd: "readframes framesize rest frames_per_chunk = (take ?n rest, drop ?n rest)"
    using 1(2) nonneg sz by (simp add: readframes_def Let_def)
  show ?case
  proof (cases "rest = []")
    case True
    with rd 1(4) show ?thesis
      by (subst (1 2 3 4) send_wav_frames.simps) (simp add: chunks.simps)
  next
    case False
    let ?data = "take ?n rest" and ?rest' = "drop ?n rest"
    obtain r c' where ws: "websocket_send c (BinaryFrame ?data) = (r, c')"
      by (cases "websocket_send c (BinaryFrame ?data)")
    from False n have ch: "chunks ?n rest = ?data # chunks ?n ?rest'"
      by (subst chunks.simps) simp
    from False n have ne: "?data \<noteq> []" by simp
    from 1(4) ch have w: "writable c (Suc (length (chunks ?n ?rest') + k))" by simp
    from websocket_send_ok [OF w, of "BinaryFrame ?data"] ws
    have r: "r = Inr ()" and s: "sent c' = sent c @ [BinaryFrame ?data]"
      and w': "writable c' (length (chunks ?n ?rest') + k)" and t: "task_id c' = task_id c"
      by simp_all
    from 1(5) False have tf: "0 < total_frames" by simp
    then have tf': "total_frames \<noteq> 0" by simp
    have ih: "fst (send_wav_frames c' framesize frames_per_chunk total_frames ?rest') = Inr () \<and>
         sent (snd (send_wav_frames c' framesize frames_per_chunk total_frames ?rest')) =
           sent c' @ map BinaryFrame (chunks ?n ?rest') \<and>
         writable (snd (send_wav_frames c' framesize frames_per_chunk total_frames ?rest')) k \<and>
         task_id (snd (send_wav_frames c' framesize frames_per_chunk total_frames ?rest')) =
           task_id c'"
      using 1(1) [OF rd [symmetric] ne ws [symmetric] r tf'] 1(2,3) w' tf by simp
    have step: "send_wav_frames c framesize frames_per_chunk total_frames rest =
                send_wav_frames c' framesize frames_per_chunk total_frames ?rest'"
      using rd ne ws r tf by (subst send_wav_frames.simps) simp
    show ?thesis unfolding step using ih s t ch by simp
  qed
qed

text \<open>Whatever the outcome, the loops only append binary frames and keep the identifier.\<close>

lemma binary_suffix:
  assumes "sent c' = sent c \<or> sent c' = sent c @ [BinaryFrame data]"
  shows "\<exists>bs. sent c' = sent c @ map BinaryFrame bs"
  using assms
proof
  assume "sent c' = sent c"
  then have "sent c' = sent c @ map BinaryFrame []" by simp
  then show ?thesis ..
next
  assume "sent c' = sent c @ [BinaryFrame data]"
  then have "sent c' = sent c @ map BinaryFrame [data]" by simp
  then show ?thesis ..
qed

lemma send_raw_chunks_keeps:
  "task_id (snd (send_raw_chunks c chunk_size f file_size)) = task_id c \<and>
   (\<exists>bs. sent (snd (send_raw_chunks c chunk_size f file_size)) = sent c @ map BinaryFrame bs)"
proof (induction c chunk_size f file_size rule: send_raw_chunks.induct)
  case (1 c chunk_size f file_size)
  have same: "\<exists>bs. sent c = sent c @ map BinaryFrame bs"
    by (rule exI [of _ "[]"]) simp
  show ?case
  proof (cases "file_read f chunk_size")
    case (Inl e)
    then have "send_raw_chunks c chunk_size f file_size = (Inl e, c)"
      by (subst send_raw_chunks.simps) simp
    with same show ?thesis by simp
  next
    case (Inr p)
    obtain data f' where p: "p = (data, f')" by (cases p)
    show ?thesis
    proof (cases "data = []")
      case True
      with Inr p have "send_raw_chunks c chunk_size f file_size = (Inr (), c)"
        by (subst send_raw_chunks.simps) simp
      with same show ?thesis by simp
    next
      case False
      obtain r c' where ws: "websocket_send c (BinaryFrame data) = (r, c')"
        by (cases "websocket_send c (BinaryFrame data)")
      note k = websocket_send_keeps [OF ws]
      from binary_suffix [OF k(2)] obtain bs' where
        s': "sent c' = sent c @ map BinaryFrame bs'" ..
      show ?thesis
      proof (cases "r = Inr () \<and> file_size \<noteq> 0")
        case True
        then have r: "r = Inr ()" and fs: "file_size \<noteq> 0" by simp_all
        have step: "send_raw_chunks c chunk_size f file_size =
                    send_raw_chunks c' chunk_size f' file_size"
          using Inr p False ws r fs by (subst send_raw_chunks.simps) simp
        from 1 [OF Inr [unfolded p] refl False ws [symmetric] r fs]
        obtain bs where
          t: "task_id (snd (send_raw_chunks c' chunk_size f' file_size)) = task_id c'" and
          s: "sent (snd (send_raw_chunks c' chunk_size f' file_size)) =
                sent c' @ map BinaryFrame bs"
          by blast
        from s s' have "\<exists>bsa. sent (snd (send_raw_chunks c' chunk_size f' file_size)) =
                     sent c @ map BinaryFrame bsa"
          by (intro exI [of _ "bs' @ bs"]) simp
        with t k(1) show ?thesis unfolding step by simp
      next
        case False
        then have res: "snd (send_raw_chunks c chunk_size f file_size) = c'"
          using Inr p \<open>data \<noteq> []\<close> ws
          by (subst send_raw_chunks.simps) (cases r, auto)
        from s' k(1) show ?thesis unfolding res by auto
      qed
    qed
  qed
qed

lemma send_wav_frames_keeps:
  "task_id (snd (send_wav_frames c framesize frames_per_chunk total_frames rest)) = task_id c \<and>
   (\<exists>bs. sent (snd (send_wav_frames c framesize frames_per_chunk total_frames rest)) =
      sent c @ map BinaryFrame bs)"
proof (induction c framesize frames_per_chunk total_frames rest rule: send_wav_frames.induct)
  case (1 c framesize frames_per_chunk total_frames rest)
  have same: "\<exists>bs. sent c = sent c @ map BinaryFrame bs"
    by (rule exI [of _ "[]"]) simp
  obtain data rest' where rd: "readframes framesize rest frames_per_chunk = (data, rest')"
    by (cases "readframes framesize rest frames_per_chunk")
  show ?case
  proof (cases "data = []")
    case True
    with rd have "send_wav_frames c framesize frames_per_chunk total_frames rest = (Inr (), c)"
      by (subst send_wav_frames.simps) simp
    with same show ?thesis by simp
  next
    case False
    obtain r c' where ws: "websocket_send c (BinaryFrame data) = (r, c')"
      by (cases "websocket_send c (BinaryFrame data)")
    note k = websocket_send_keeps [OF ws]
    from binary_suffix [OF k(2)] obtain bs' where
      s': "sent c' = sent c @ map BinaryFrame bs'" ..
    show ?thesis
    proof (cases "r = Inr () \<and> total_frames \<noteq> 0")
      case True
      then have r: "r = Inr ()" and tf: "total_frames \<noteq> 0" by simp_all
      have step: "send_wav_frames c framesize frames_per_chunk total_frames rest =
                  send_wav_frames c' framesize frames_per_chunk total_frames rest'"
        using rd False ws r tf by (subst send_wav_frames.simps) simp
      from 1 [OF rd [symmetric] False ws [symmetric] r tf]
      obtain bs where
        t: "task_id (snd (send_wav_frames c' framesize frames_per_chunk total_frames rest')) =
              task_id c'" and
        s: "sent (snd (send_wav_frames c' framesize frames_per_chunk total_frames rest')) =
              sent c' @ map BinaryFrame bs"
        by blast
      from s s' have "\<exists>bsa. sent (snd (send_wav_frames c' framesize frames_per_chunk
                   total_frames rest')) = sent c @ map BinaryFrame bsa"
        by (intro exI [of _ "bs' @ bs"]) simp
      with t k(1) show ?thesis unfolding step by simp
    next
      case False
      then have res: "snd (send_wav_frames c framesize frames_per_chunk total_frames rest) = c'"
        using rd \<open>data \<noteq> []\<close> ws
        by (subst send_wav_frames.simps) (cases r, auto)
      from s' k(1) show ?thesis unfolding res by auto
    qed
  qed
qed

subsection \<open>Streaming a whole file\<close>

lemma raw_duration: "((of_nat n :: rat) / (16000 * 2) > 60) = (1920000 < n)"
proof -
  have "((of_nat n :: rat) / 32000 > 60) = ((60::rat) * 32000 < of_nat n)"
    by (simp add: pos_less_divide_eq)
  also have "\<dots> = ((of_nat 1920000 :: rat) < of_nat n)" by simp
  also have "\<dots> = (1920000 < n)" by (simp only: of_nat_less_iff)
  finally show ?thesis by simp
qed

lemma wav_duration:
  assumes "0 < fr"
  shows "((of_nat tf :: rat) / of_nat fr > 60) = (60 * fr < tf)"
proof -
  from assms have "((of_nat tf :: rat) / of_nat fr > 60) = ((60::rat) * of_nat fr < of_nat tf)"
    by (simp add: pos_less_divide_eq)
  also have "\<dots> = ((of_nat (60 * fr) :: rat) < of_nat tf)" by simp
  also have "\<dots> = (60 * fr < tf)" by (simp only: of_nat_less_iff)
  finally show ?thesis .
qed

lemma chunks_zero: "chunks 0 xs = []"
  by (simp add: chunks.simps)

lemma send_raw_chunks_zero: "send_raw_chunks c 0 f file_size = (Inr (), c)"
  by (subst send_raw_chunks.simps) (simp add: file_read_def)

lemma send_wav_frames_zero: "send_wav_frames c framesize 0 total_frames rest = (Inr (), c)"
  by (subst send_wav_frames.simps) (simp add: readframes_def)

lemma send_audio_data_ok:
  assumes entry: "fs path = Some entry"
    and ok: "streamable path entry"
    and size: "0 \<le> chunk_size"
    and w: "writable c (length (audio_frames path entry chunk_size) + k)"
  shows "fst (send_audio_data fs c path chunk_size) = Inr () \<and>
         sent (snd (send_audio_data fs c path chunk_size)) =
           sent c @ map BinaryFrame (audio_frames path entry chunk_size) \<and>
         writable (snd (send_audio_data fs c path chunk_size)) k \<and>
         task_id (snd (send_audio_data fs c path chunk_size)) = task_id c"
proof -
  from ok obtain bs wv where e: "entry = RegularFile bs wv"
    by (cases entry) (simp_all add: streamable_def)
  show ?thesis
  proof (cases "endswith path ''.wav''")
    case False
    with ok e have len: "length bs \<le> 1920000" by (simp add: streamable_def)
    then have dur: "\<not> (of_nat (length bs) :: rat) / (16000 * 2) > 60"
      unfolding raw_duration by simp
    have run: "send_audio_data fs c path chunk_size =
               send_raw_chunks c chunk_size bs (length bs)"
      using entry e False dur by (simp add: send_audio_data_def os_path_exists_def Let_def)
    have fr: "audio_frames path entry chunk_size = chunks (nat chunk_size) bs"
      using e False by (simp add: audio_frames_def frame_bytes_def pcm_bytes_def)
    show ?thesis
    proof (cases "chunk_size = 0")
      case True
      with w show ?thesis unfolding run fr by (simp add: send_raw_chunks_zero chunks_zero)
    next
      case False
      with size have pos: "0 < chunk_size" by simp
      have "bs \<noteq> [] \<longrightarrow> 0 < length bs" by simp
      from send_raw_chunks_ok [OF pos w [unfolded fr] this]
      show ?thesis unfolding run fr .
    qed
  next
    case True
    with ok e obtain wr where wv: "wv = Some wr" and ch: "0 < nchannels wr"
      and sw: "0 < sampwidth wr" and rate: "0 < framerate wr"
      and lim: "getnframes wr \<le> 60 * framerate wr"
      and whole: "data_chunk wr = [] \<or> 0 < getnframes wr"
      by (cases wv) (simp_all add: streamable_def)
    let ?fpc = "chunk_size div int (sampwidth wr * nchannels wr)"
    let ?fs = "nchannels wr * sampwidth wr"
    from lim rate have dur: "\<not> (of_nat (getnframes wr) :: rat) / of_nat (framerate wr) > 60"
      unfolding wav_duration [OF rate] by simp
    have run: "send_audio_data fs c path chunk_size =
               send_wav_frames c ?fs ?fpc (getnframes wr) (data_chunk wr)"
      using entry e True wv dur rate ch sw by (simp add: send_audio_data_def os_path_exists_def Let_def)
    have fr: "audio_frames path entry chunk_size = chunks (nat ?fpc * ?fs) (data_chunk wr)"
      using e True wv by (simp add: audio_frames_def frame_bytes_def pcm_bytes_def)
    from size have nonneg: "0 \<le> ?fpc" by (simp add: pos_imp_zdiv_nonneg_iff ch sw)
    show ?thesis
    proof (cases "?fpc = 0")
      case True
      with w show ?thesis unfolding run fr by (simp add: send_wav_frames_zero chunks_zero)
    next
      case False
      with nonneg have pos: "0 < ?fpc" by simp
      from ch sw have fs: "0 < ?fs" by simp
      from whole have "data_chunk wr \<noteq> [] \<longrightarrow> 0 < getnframes wr" by blast
      from send_wav_frames_ok [OF pos fs w [unfolded fr] this]
      show ?thesis unfolding run fr .
    qed
  qed
qed

subsection \<open>Message logs\<close>

lemma close_keeps: "sent (close c) = sent c" "task_id (close c) = task_id c"
  by (simp_all add: close_def sent_def ws_close_def split: option.splits)

lemma filter_audio_binary: "filter is_audio (map BinaryFrame bs) = map BinaryFrame bs"
  by (induction bs) simp_all

lemma filter_action_binary: "filter (has_action a) (map BinaryFrame bs) = []"
  by (induction bs) simp_all

lemma run_task_action:
  "has_action ''run-task'' (TextFrame (run_task_message t tlang slang sr fmt mes itn))"
  "\<not> has_action ''finish-task'' (TextFrame (run_task_message t tlang slang sr fmt mes itn))"
  by (simp_all add: run_task_message_def)

lemma finish_task_action:
  "has_action ''finish-task'' (TextFrame (finish_task_message t))"
  "\<not> has_action ''run-task'' (TextFrame (finish_task_message t))"
  by (simp_all add: finish_task_message_def)

lemma sequenced_shape:
  "sequenced (TextFrame (run_task_message t tlang slang sr fmt mes itn) # map BinaryFrame bs
              @ [TextFrame (finish_task_message t')])"
proof -
  let ?run = "TextFrame (run_task_message t tlang slang sr fmt mes itn)"
  let ?fin = "TextFrame (finish_task_message t')"
  let ?msgs = "?run # map BinaryFrame bs @ [?fin]"
  have one_run: "length (filter (has_action ''run-task'') ?msgs) = 1"
    by (simp add: run_task_action finish_task_action filter_action_binary
        del: has_action.simps)
  have one_fin: "length (filter (has_action ''finish-task'') ?msgs) = 1"
    by (simp add: run_task_action finish_task_action filter_action_binary
        del: has_action.simps)
  have order: "(\<exists>a < i. has_action ''run-task'' (?msgs ! a)) \<and>
               (\<exists>b < length ?msgs. i < b \<and> has_action ''finish-task'' (?msgs ! b))"
    if i: "i < length ?msgs" and audio: "is_audio (?msgs ! i)" for i
  proof -
    from audio have "i \<noteq> 0" by (cases i) simp_all
    then have pos: "0 < i" by simp
    have "i \<noteq> Suc (length bs)"
    proof
      assume "i = Suc (length bs)"
      then have "?msgs ! i = ?fin" by (simp add: nth_append)
      with audio show False by simp
    qed
    with i have below: "i < Suc (length bs)" by simp
    have first: "has_action ''run-task'' (?msgs ! 0)"
      by (simp add: run_task_action del: has_action.simps)
    have "?msgs ! Suc (length bs) = ?fin" by (simp add: nth_append)
    then have last: "has_action ''finish-task'' (?msgs ! Suc (length bs))"
      by (simp only: finish_task_action)
    have "Suc (length bs) < length ?msgs" by simp
    with pos first below last show ?thesis by blast
  qed
  from one_run one_fin order show ?thesis unfolding sequenced_def by blast
qed

subsection \<open>The steps of the driver\<close>

lemma connect_ok:
  assumes "fst (connect srv c) = Inr ()" and "stays_open srv n"
  shows "sent (snd (connect srv c)) = []" and "writable (snd (connect srv c)) n"
    and "task_id (snd (connect srv c)) = task_id c"
  using assms
  by (auto simp: connect_def websockets_connect_def sent_def writable_def accepts_writes_def
      stays_open_def Let_def split: if_splits option.splits)

lemma connect_keeps:
  "task_id (snd (connect srv c)) = task_id c"
  "sent (snd (connect srv c)) = [] \<or> sent (snd (connect srv c)) = sent c"
  by (auto simp: connect_def websockets_connect_def sent_def Let_def split: if_splits)

lemma send_audio_data_keeps:
  "task_id (snd (send_audio_data fs c path chunk_size)) = task_id c \<and>
   (\<exists>bs. sent (snd (send_audio_data fs c path chunk_size)) = sent c @ map BinaryFrame bs)"
proof -
  have same: "\<exists>bs. sent c = sent c @ map BinaryFrame bs"
    by (rule exI [of _ "[]"]) simp
  have "(\<exists>e. send_audio_data fs c path chunk_size = (Inl e, c)) \<or>
        (\<exists>f n. send_audio_data fs c path chunk_size = send_raw_chunks c chunk_size f n) \<or>
        (\<exists>a b t r. send_audio_data fs c path chunk_size = send_wav_frames c a b t r)"
    unfolding send_audio_data_def os_path_exists_def Let_def
    by (simp split: option.split sum.split) blast
  then consider (stop) e where "send_audio_data fs c path chunk_size = (Inl e, c)"
    | (raw) f n where "send_audio_data fs c path chunk_size = send_raw_chunks c chunk_size f n"
    | (wav) a b t r where "send_audio_data fs c path chunk_size = send_wav_frames c a b t r"
    by blast
  then show ?thesis
  proof cases
    case stop
    with same show ?thesis by simp
  next
    case raw
    show ?thesis unfolding raw by (rule send_raw_chunks_keeps)
  next
    case wav
    show ?thesis unfolding wav by (rule send_wav_frames_keeps)
  qed
qed

lemma carries_binary: "list_all (carries_task_id u) (map BinaryFrame bs)"
  by (induction bs) simp_all

lemma carries_control:
  "carries_task_id u (TextFrame (run_task_message u tlang slang sr fmt mes itn))"
  "carries_task_id u (TextFrame (finish_task_message u))"
  by (simp_all add: run_task_message_def finish_task_message_def)

lemma websocket_send_carries:
  assumes "list_all (carries_task_id u) (sent c)" and "carries_task_id u m"
  shows "list_all (carries_task_id u) (sent (snd (websocket_send c m)))"
proof -
  obtain r c' where ws: "websocket_send c m = (r, c')" by (cases "websocket_send c m")
  from websocket_send_keeps(2) [OF ws] assms show ?thesis unfolding ws by auto
qed

lemma websocket_send_task_id: "task_id (snd (websocket_send c m)) = task_id c"
proof -
  obtain r c' where ws: "websocket_send c m = (r, c')" by (cases "websocket_send c m")
  from websocket_send_keeps(1) [OF ws] show ?thesis unfolding ws by simp
qed

text \<open>The clients after each step of the driver, whatever the steps returned.\<close>

lemma driver_stages:
  fixes srv fs uuid4 key audio_file target_lang
  defines "c1 \<equiv> snd (connect srv (init key uuid4))"
  defines "c2 \<equiv> snd (send_run_task c1 target_lang ''auto'' 16000 ''pcm'' 10000 True)"
  defines "c3 \<equiv> snd (send_audio_data fs c2 audio_file 3200)"
  defines "c4 \<equiv> snd (send_finish_task c3)"
  shows "final_client (test_with_audio_file srv fs incoming e uuid4 key audio_file target_lang)
           \<in> {close c1, close c2, close c3, close c4}"
  unfolding c1_def c2_def c3_def c4_def test_with_audio_file_def
  by (auto split: prod.splits sum.splits)

lemma driver_invariant:
  fixes srv fs uuid4 key audio_file target_lang
  defines "c1 \<equiv> snd (connect srv (init key uuid4))"
  defines "c2 \<equiv> snd (send_run_task c1 target_lang ''auto'' 16000 ''pcm'' 10000 True)"
  defines "c3 \<equiv> snd (send_audio_data fs c2 audio_file 3200)"
  defines "c4 \<equiv> snd (send_finish_task c3)"
  shows "\<forall>c \<in> {c1, c2, c3, c4}.
           task_id c = uuid4 \<and> list_all (carries_task_id uuid4) (sent c)"
proof -
  have t0: "task_id (init key uuid4) = uuid4" and s0: "sent (init key uuid4) = []"
    by (simp_all add: init_def sent_def)
  have t1: "task_id c1 = uuid4" unfolding c1_def using connect_keeps(1) t0 by simp
  have s1: "list_all (carries_task_id uuid4) (sent c1)"
    unfolding c1_def using connect_keeps(2) [of srv "init key uuid4"] s0 by auto
  have t2: "task_id c2 = uuid4"
    unfolding c2_def send_run_task_def using websocket_send_task_id t1 by simp
  have s2: "list_all (carries_task_id uuid4) (sent c2)"
    unfolding c2_def send_run_task_def t1
    by (rule websocket_send_carries [OF s1 carries_control(1)])
  from send_audio_data_keeps [of fs c2 audio_file 3200]
  obtain bs where t3': "task_id c3 = task_id c2" and s3': "sent c3 = sent c2 @ map BinaryFrame bs"
    unfolding c3_def by blast
  from t3' t2 have t3: "task_id c3 = uuid4" by simp
  from s3' s2 have s3: "list_all (carries_task_id uuid4) (sent c3)"
    by (simp add: carries_binary)
  have t4: "task_id c4 = uuid4"
    unfolding c4_def send_finish_task_def using websocket_send_task_id t3 by simp
  have s4: "list_all (carries_task_id uuid4) (sent c4)"
    unfolding c4_def send_finish_task_def t3
    by (rule websocket_send_carries [OF s3 carries_control(2)])
  from t1 s1 t2 s2 t3 s3 t4 s4 show ?thesis by simp
qed

subsection \<open>The concrete inputs evaluated\<close>

lemma example_fs_hello: "example_fs ''hello.pcm'' = Some (RegularFile [1, 2, 3, 4, 5] None)"
  by (simp add: example_fs_def)

lemma example_session_log:
  "sent (final_client example_session) =
     [TextFrame (run_task_message ''0f8fad5b-d9cb-469f-a165-70867728950e'' ''en'' ''auto''
        16000 ''pcm'' 10000 True),
      BinaryFrame [1, 2, 3, 4, 5],
      TextFrame (finish_task_message ''0f8fad5b-d9cb-469f-a165-70867728950e'')]"
  by (simp add: example_session_def test_with_audio_file_def connect_def init_def
      websockets_connect_def patient_server_def send_run_task_def websocket_send_def
      ws_send_def send_audio_data_def os_path_exists_def example_fs_hello endswith_def Let_def
      send_raw_chunks.simps file_read_def send_finish_task_def receive_messages_def
      close_def ws_close_def sent_def)

lemma example_fs_narrowband:
  "example_fs ''narrowband.pcm'' = Some (RegularFile (replicate 1000000 0) None)"
  by (simp add: example_fs_def)

lemma example_fs_long:
  "example_fs ''long.pcm'' = Some (RegularFile (replicate 1920002 0) None)"
  by (simp add: example_fs_def)

lemma example_fs_speech24:
  "example_fs ''speech24.wav'' =
     Some (RegularFile (replicate 44 0 @ replicate 6399 0) (Some wav24))"
  by (simp add: example_fs_def)

lemma open_client_writable: "writable open_client n"
  by (simp add: writable_def accepts_writes_def open_client_def init_def)

lemma open_client_sent: "sent open_client = []"
  by (simp add: sent_def open_client_def init_def)

subsection \<open>The receive path on expected messages\<close>

lemma results_delivered_append:
  "results_delivered (xs @ ys) = results_delivered xs @ results_delivered ys"
  by (induction xs rule: results_delivered.induct) simp_all

lemma result_events_append:
  "result_events (xs @ ys) = result_events xs @ result_events ys"
  by (induction xs rule: result_events.induct) simp_all

lemma translation_lines_object:
  assumes "is_object t"
  shows "translation_lines t = Inr (translation_report t)"
proof -
  from assms obtain kvs where "t = JObj kvs" by (cases t) simp_all
  then show ?thesis by (simp add: translation_lines_def bind_result_def lookup_or_def)
qed

lemma transcription_lines_or_nothing:
  assumes "is_object t \<or> \<not> truthy t"
  shows "(if truthy t then transcription_lines t else Inr []) = Inr (recognition_report t)"
proof (cases "is_object t")
  case True
  then obtain kvs where "t = JObj kvs" by (cases t) simp_all
  then show ?thesis by (simp add: transcription_lines_def bind_result_def lookup_or_def)
next
  case False
  with assms have "\<not> truthy t" by simp
  with False show ?thesis by (cases t) simp_all
qed

lemma print_translations_objects:
  assumes "list_all is_object ts"
  shows "print_translations ts = (Inr (), concat (map translation_report ts))"
  using assms
proof (induction ts)
  case Nil
  show ?case by simp
next
  case (Cons t ts)
  then have "is_object t" and rest: "list_all is_object ts" by simp_all
  with Cons.IH [OF rest] show ?case by (simp add: translation_lines_object)
qed

text \<open>The loop over a value of \<open>translations\<close> that holds objects only.\<close>

lemma translations_loop:
  assumes "objects_only tr"
  shows "\<exists>items. py_iter tr = Inr items \<and>
           print_translations items =
             (Inr (), case tr of JArr ts \<Rightarrow> concat (map translation_report ts) | r \<Rightarrow> [])"
  using assms by (cases tr) (simp_all add: print_translations_objects)

lemma json_at_through:
  assumes "lookup_or kvs k (JObj []) = JObj inner"
  shows "json_at (k # k' # ks) (JObj kvs) = json_at (k' # ks) (JObj inner)"
  using assms by (cases "map_of kvs k") (auto simp: lookup_or_def)

lemma json_at_entry: "json_at [k] (JObj kvs) = map_of kvs k"
  by (cases "map_of kvs k") simp_all

lemma handle_result_readable:
  assumes "readable_result ev"
  shows "handle_result ev = (Inr (), result_report ev)"
proof -
  from assms obtain kvs where ev: "ev = JObj kvs"
    by (cases ev) (simp_all add: readable_result_def)
  from assms ev obtain payload where p: "lookup_or kvs ''payload'' (JObj []) = JObj payload"
    by (cases "lookup_or kvs ''payload'' (JObj [])") (simp_all add: readable_result_def)
  from assms ev p obtain outp where o: "lookup_or payload ''output'' (JObj []) = JObj outp"
    by (cases "lookup_or payload ''output'' (JObj [])") (simp_all add: readable_result_def)
  let ?t = "lookup_or outp ''transcription'' (JObj [])"
  let ?tr = "lookup_or outp ''translations'' (JArr [])"
  from assms ev p o have t: "is_object ?t \<or> \<not> truthy ?t" and tr: "objects_only ?tr"
    by (simp_all add: readable_result_def)
  let ?shown = "recognition_report ?t"
  let ?translated = "case ?tr of JArr ts \<Rightarrow> concat (map translation_report ts) | r \<Rightarrow> []"
  have code_o: "bind_result (py_get ev ''payload'' (JObj []))
                  (\<lambda>payload. py_get payload ''output'' (JObj [])) = Inr (JObj outp)"
    using ev p o by (simp add: bind_result_def lookup_or_def)
  have code_t: "py_get (JObj outp) ''transcription'' (JObj []) = Inr ?t"
    by (simp add: lookup_or_def)
  from translations_loop [OF tr] obtain items where
    it: "bind_result (py_get (JObj outp) ''translations'' (JArr [])) py_iter = Inr items"
    and pt: "print_translations items = (Inr (), ?translated)"
    by (auto simp: bind_result_def lookup_or_def)
  have code: "handle_result ev =
      (Inr (), [ReceivedResultLine ev] @ ?shown @ ?translated @ [BlankLine])"
    unfolding handle_result_def code_o
    by (simp add: Let_def code_t transcription_lines_or_nothing [OF t] it pt
        del: py_get.simps)
  have "json_at [''payload'', ''output'', ''transcription''] ev = map_of outp ''transcription''"
    unfolding ev json_at_through [OF p] json_at_through [OF o] by (rule json_at_entry)
  then have spec_t: "(case json_at [''payload'', ''output'', ''transcription''] ev of
      None \<Rightarrow> [] | Some t \<Rightarrow> recognition_report t) = ?shown"
    by (cases "map_of outp ''transcription''") (simp_all add: lookup_or_def)
  have "json_at [''payload'', ''output'', ''translations''] ev = map_of outp ''translations''"
    unfolding ev json_at_through [OF p] json_at_through [OF o] by (rule json_at_entry)
  then have spec_tr: "(case json_at [''payload'', ''output'', ''translations''] ev of
      Some (JArr ts) \<Rightarrow> concat (map translation_report ts) | r \<Rightarrow> []) = ?translated"
    by (cases "map_of outp ''translations''") (simp_all add: lookup_or_def)
  show ?thesis unfolding code result_report_def spec_t spec_tr by simp
qed

lemma results_delivered_recognition: "results_delivered (recognition_report t) = []"
  by (cases t) simp_all

lemma results_delivered_translations:
  "results_delivered (concat (map translation_report ts)) = []"
proof (induction ts)
  case Nil
  show ?case by simp
next
  case (Cons t ts)
  then show ?case by (cases t) (simp_all add: results_delivered_append)
qed

lemma results_delivered_report: "results_delivered (result_report ev) = [ev]"
proof -
  have "results_delivered
          (case json_at [''payload'', ''output'', ''transcription''] ev of
             None \<Rightarrow> [] | Some t \<Rightarrow> recognition_report t) = []"
    by (simp add: results_delivered_recognition split: option.split)
  moreover have "results_delivered
          (case json_at [''payload'', ''output'', ''translations''] ev of
             Some (JArr ts) \<Rightarrow> concat (map translation_report ts) | r \<Rightarrow> []) = []"
    by (simp add: results_delivered_translations split: option.split json.split)
  ultimately show ?thesis by (simp add: result_report_def results_delivered_append)
qed

lemma event_type_object:
  assumes "event_type m = Some (JStr t)"
  obtains kvs h where "m = Decodes (JObj kvs)" and "map_of kvs ''header'' = Some (JObj h)"
    and "map_of h ''event'' = Some (JStr t)"
proof -
  from assms obtain ev where m: "m = Decodes ev" by (cases m) simp_all
  with assms obtain kvs where ev: "ev = JObj kvs"
    by (cases ev) (simp_all add: bind_result_def)
  from assms m ev obtain hj where h: "map_of kvs ''header'' = Some hj"
    by (cases "map_of kvs ''header''") (simp_all add: bind_result_def)
  from assms m ev h obtain hk where hj: "hj = JObj hk"
    by (cases hj) (simp_all add: bind_result_def)
  from assms m ev h hj have "map_of hk ''event'' = Some (JStr t)"
    by (cases "map_of hk ''event''") (simp_all add: bind_result_def)
  with m ev h hj that show ?thesis by simp
qed

lemma handle_message_not_json: "handle_message NotJson = (Inr Continue, [JSONErrorLine])"
  by (simp add: handle_message_def)

lemma handle_message_finished:
  assumes "event_type m = Some (JStr ''task-finished'')"
  shows "handle_message m = (Inr Break, [TaskFinishedLine])"
proof -
  from assms obtain kvs h where "m = Decodes (JObj kvs)"
    and "map_of kvs ''header'' = Some (JObj h)"
    and "map_of h ''event'' = Some (JStr ''task-finished'')"
    by (rule event_type_object)
  then show ?thesis by (simp add: handle_message_def bind_result_def)
qed

lemma handle_message_failed:
  assumes "event_type (Decodes ev) = Some (JStr ''task-failed'')"
  shows "handle_message (Decodes ev) =
           (Inr Break,
            [TaskFailedLine, ErrorCodeLine (error_code_of ev),
             ErrorMessageLine (error_message_of ev)]
            @ (if error_code_of ev = JStr ''TOO_LONG_SPEECH'' then [TooLongHintLine] else [])
            @ [DetailLine ev])"
proof -
  from assms obtain kvs h where "Decodes ev = Decodes (JObj kvs)"
    and "map_of kvs ''header'' = Some (JObj h)"
    and "map_of h ''event'' = Some (JStr ''task-failed'')"
    by (rule event_type_object)
  then show ?thesis
    by (simp add: handle_message_def bind_result_def error_code_of_def error_message_of_def
        split: option.split)
qed

lemma handle_message_terminal:
  assumes "terminal t"
  shows "handle_message t = (Inr Break, console_report t)"
proof (cases "event_type t = Some (JStr ''task-finished'')")
  case True
  then obtain ev where "t = Decodes ev" by (cases t) simp_all
  with handle_message_finished [OF True] True show ?thesis by simp
next
  case False
  with assms have failed: "event_type t = Some (JStr ''task-failed'')"
    by (simp add: terminal_def)
  then obtain ev where ev: "t = Decodes ev" by (cases t) simp_all
  from handle_message_failed [OF failed [unfolded ev]] failed ev show ?thesis by simp
qed

lemma handle_message_expected:
  assumes wf: "expected m" and nt: "\<not> terminal m"
  shows "handle_message m = (Inr Continue, console_report m)"
proof (cases m)
  case NotJson
  then show ?thesis by (simp add: handle_message_def)
next
  case NotUtf8
  with wf show ?thesis by simp
next
  case (Decodes ev)
  with wf obtain kvs where ev: "ev = JObj kvs" by (cases ev) simp_all
  define header where
    "header = (case map_of kvs ''header'' of None \<Rightarrow> JObj [] | Some h \<Rightarrow> h)"
  from wf Decodes ev obtain h where h: "header = JObj h"
    by (cases header) (auto simp: header_def split: option.splits)
  define t where "t = (case map_of h ''event'' of None \<Rightarrow> JNull | Some v \<Rightarrow> v)"
  have et: "bind_result (py_get ev ''header'' (JObj []))
              (\<lambda>header. py_get header ''event'' JNull) = Inr t"
    using ev h by (simp add: bind_result_def header_def t_def)
  then have et': "event_type m = Some t" using Decodes by simp
  from nt et' have t1: "t \<noteq> JStr ''task-finished''" and t2: "t \<noteq> JStr ''task-failed''"
    by (auto simp: terminal_def)
  show ?thesis
  proof (cases "t = JStr ''result-generated''")
    case True
    with et' have "is_result m" by (simp add: is_result_def)
    with wf Decodes ev have "readable_result ev" by simp
    from handle_result_readable [OF this]
    have "handle_message m = (Inr Continue, result_report ev)"
      unfolding Decodes handle_message_def using et True by simp
    with et' True Decodes show ?thesis by simp
  next
    case False
    have "handle_message m = (Inr Continue, if t = JStr ''task-started'' then [TaskStartedLine] else [])"
      unfolding Decodes handle_message_def using et False t1 t2 by simp
    with et' False t1 t2 Decodes show ?thesis by simp
  qed
qed

lemma results_delivered_console:
  assumes "\<not> terminal m"
  shows "results_delivered (console_report m) = result_events [m]"
proof (cases m)
  case (Decodes ev)
  with assms show ?thesis
    by (simp add: terminal_def is_result_def results_delivered_report)
qed simp_all

text \<open>The lines the loop prints for a run of messages it continues after.\<close>

lemma receive_loop_append:
  assumes "\<forall>m \<in> set pre. expected m \<and> \<not> terminal m"
  shows "fst (receive_loop (pre @ rest) e) = fst (receive_loop rest e) \<and>
         snd (receive_loop (pre @ rest) e) =
           concat (map (\<lambda>m. snd (handle_message m)) pre) @ snd (receive_loop rest e)"
  using assms
proof (induction pre)
  case Nil
  show ?case by simp
next
  case (Cons m pre)
  then have m: "expected m" "\<not> terminal m"
    and pre: "\<forall>m \<in> set pre. expected m \<and> \<not> terminal m" by simp_all
  from handle_message_expected [OF m]
  obtain ls where hm: "handle_message m = (Inr Continue, ls)" by simp
  obtain r ls' where rl: "receive_loop (pre @ rest) e = (r, ls')"
    by (cases "receive_loop (pre @ rest) e")
  with Cons.IH [OF pre] hm show ?case by simp
qed

lemma printed_for_prefix:
  assumes "\<forall>m \<in> set pre. expected m \<and> \<not> terminal m"
  shows "concat (map (\<lambda>m. snd (handle_message m)) pre) = concat (map console_report pre)"
  using assms by (induction pre) (simp_all add: handle_message_expected)

lemma results_of_prefix:
  assumes "\<forall>m \<in> set pre. \<not> terminal m"
  shows "results_delivered (concat (map console_report pre)) = result_events pre"
  using assms
proof (induction pre)
  case Nil
  show ?case by simp
next
  case (Cons m pre)
  then have m: "\<not> terminal m" and pre: "\<forall>m \<in> set pre. \<not> terminal m" by simp_all
  have "result_events (m # pre) = result_events [m] @ result_events pre"
    using result_events_append [of "[m]" pre] by simp
  with results_delivered_console [OF m] Cons.IH [OF pre] show ?case
    by (simp add: results_delivered_append)
qed

lemma results_delivered_terminal:
  assumes "terminal t"
  shows "results_delivered (console_report t) = []"
proof -
  from assms obtain ev where "t = Decodes ev"
    by (cases t) (simp_all add: terminal_def)
  with assms show ?thesis by (auto simp: terminal_def)
qed

subsection \<open>Every other message ends the loop with an exception\<close>

lemma translation_lines_raises:
  assumes "\<not> is_object t"
  shows "translation_lines t = Inl AttributeError"
  using assms by (cases t) (simp_all add: translation_lines_def bind_result_def)

lemma print_translations_raises:
  assumes "\<not> list_all is_object ts"
  shows "\<exists>x. fst (print_translations ts) = Inl x"
  using assms
proof (induction ts)
  case Nil
  then show ?case by simp
next
  case (Cons t ts)
  show ?case
  proof (cases "is_object t")
    case False
    then show ?thesis by (simp add: translation_lines_raises)
  next
    case True
    with Cons.prems have "\<not> list_all is_object ts" by simp
    from Cons.IH [OF this] obtain x where "fst (print_translations ts) = Inl x" ..
    with True show ?thesis
      by (simp add: translation_lines_object split_beta)
  qed
qed

lemma translations_loop_raises:
  assumes "\<not> objects_only tr"
  shows "(\<exists>x. py_iter tr = Inl x) \<or>
         (\<exists>items x. py_iter tr = Inr items \<and> fst (print_translations items) = Inl x)"
proof (cases tr)
  case (JArr ts)
  with assms show ?thesis by (simp add: print_translations_raises)
next
  case (JObj kvs)
  with assms obtain kv rest where "kvs = kv # rest" by (cases kvs) simp_all
  with JObj show ?thesis by (simp add: translation_lines_raises)
next
  case (JStr s)
  with assms obtain ch rest where "s = ch # rest" by (cases s) simp_all
  with JStr show ?thesis by (simp add: translation_lines_raises)
qed simp_all

lemma py_get_non_object:
  assumes "\<not> is_object j"
  shows "py_get j k d = Inl AttributeError"
  using assms by (cases j) simp_all

lemma handle_result_raises:
  assumes "\<not> readable_result (JObj kvs)"
  shows "\<exists>x. fst (handle_result (JObj kvs)) = Inl x"
proof -
  let ?pv = "lookup_or kvs ''payload'' (JObj [])"
  have first: "py_get (JObj kvs) ''payload'' (JObj []) = Inr ?pv"
    by (simp add: lookup_or_def)
  show ?thesis
  proof (cases "is_object ?pv")
    case False
    then have "bind_result (py_get (JObj kvs) ''payload'' (JObj []))
                 (\<lambda>payload. py_get payload ''output'' (JObj [])) = Inl AttributeError"
      unfolding first by (simp add: bind_result_def py_get_non_object)
    then show ?thesis unfolding handle_result_def by simp
  next
    case True
    then obtain payload where pv: "?pv = JObj payload" by (cases ?pv) simp_all
    let ?ov = "lookup_or payload ''output'' (JObj [])"
    have start: "bind_result (py_get (JObj kvs) ''payload'' (JObj []))
                  (\<lambda>payload. py_get payload ''output'' (JObj [])) = Inr ?ov"
      unfolding first pv by (simp add: bind_result_def lookup_or_def)
    show ?thesis
    proof (cases "is_object ?ov")
      case False
      then have "py_get ?ov ''transcription'' (JObj []) = Inl AttributeError"
        by (rule py_get_non_object)
      then show ?thesis unfolding handle_result_def start by (simp add: Let_def)
    next
      case True
      then obtain outp where ov: "?ov = JObj outp" by (cases ?ov) simp_all
      let ?t = "lookup_or outp ''transcription'' (JObj [])"
      let ?tr = "lookup_or outp ''translations'' (JArr [])"
      have code_t: "py_get (JObj outp) ''transcription'' (JObj []) = Inr ?t"
        by (simp add: lookup_or_def)
      show ?thesis
      proof (cases "is_object ?t \<or> \<not> truthy ?t")
        case False
        then have "truthy ?t" and "transcription_lines ?t = Inl AttributeError"
          by (simp_all add: transcription_lines_def bind_result_def py_get_non_object)
        then show ?thesis
          unfolding handle_result_def start ov
          by (simp add: Let_def code_t del: py_get.simps)
      next
        case True
        with assms pv ov have "\<not> objects_only ?tr"
          by (simp add: readable_result_def)
        from translations_loop_raises [OF this]
        have "\<exists>x. fst (case bind_result (py_get (JObj outp) ''translations'' (JArr [])) py_iter of
                   Inl e \<Rightarrow> (Inl e, ls)
                 | Inr items \<Rightarrow>
                     (case print_translations items of
                        (Inl e, ls') \<Rightarrow> (Inl e, ls @ ls')
                      | (Inr u, ls') \<Rightarrow> (Inr (), ls @ ls' @ [BlankLine]))) = Inl x" for ls
          by (auto simp: bind_result_def lookup_or_def split: prod.split sum.split)
        then show ?thesis
          unfolding handle_result_def start ov
          by (simp add: Let_def code_t transcription_lines_or_nothing [OF True]
              del: py_get.simps)
      qed
    qed
  qed
qed

lemma unexpected_message_raises:
  assumes "\<not> expected m"
  shows "\<exists>x. fst (handle_message m) = Inl x"
proof (cases m)
  case NotJson
  with assms show ?thesis by simp
next
  case NotUtf8
  then show ?thesis by (simp add: handle_message_def)
next
  case (Decodes ev)
  show ?thesis
  proof (cases ev)
    case (JObj kvs)
    show ?thesis
    proof (cases "case map_of kvs ''header'' of None \<Rightarrow> True | Some h \<Rightarrow> is_object h")
      case False
      then obtain h where "map_of kvs ''header'' = Some h" and "\<not> is_object h"
        by (cases "map_of kvs ''header''") simp_all
      then show ?thesis unfolding Decodes JObj
        by (cases h) (simp_all add: handle_message_def bind_result_def)
    next
      case True
      with assms Decodes JObj have res: "is_result (Decodes (JObj kvs))"
        and bad: "\<not> readable_result (JObj kvs)"
        by (auto split: if_splits)
      from res have et: "bind_result (py_get (JObj kvs) ''header'' (JObj []))
          (\<lambda>header. py_get header ''event'' JNull) = Inr (JStr ''result-generated'')"
        by (simp add: is_result_def split: sum.splits)
      from handle_result_raises [OF bad]
      obtain x ls where "handle_result (JObj kvs) = (Inl x, ls)"
        by (cases "handle_result (JObj kvs)") auto
      then have "handle_message (Decodes (JObj kvs)) = (Inl x, ls)"
        unfolding handle_message_def json_loads.simps using et
        by (simp del: py_get.simps)
      then show ?thesis unfolding Decodes JObj by simp
    qed
  qed (simp_all add: Decodes handle_message_def bind_result_def)
qed

section \<open>Properties of the outbound path\<close>

text \<open>
  C1. In a session of the driver that connects, whose peer keeps the connection open
  for the run-task message, the audio frames and the finish-task message, and whose
  audio file is one the client streams to the end, the outbound log is the run-task
  message, then the audio frames in order, then the finish-task message: each control
  message is sent exactly once, run-task strictly before the first binary frame and
  finish-task strictly after the last one.
\<close>

theorem control_messages_bracket_audio:
  assumes connected: "fst (connect srv (init key uuid4)) = Inr ()"
    and patient: "stays_open srv (length (audio_frames audio_file entry 3200) + 2)"
    and entry: "fs audio_file = Some entry"
    and valid: "streamable audio_file entry"
  shows "sent (final_client
           (test_with_audio_file srv fs incoming e uuid4 key audio_file target_lang)) =
         TextFrame (run_task_message uuid4 target_lang ''auto'' 16000 ''pcm'' 10000 True)
           # map BinaryFrame (audio_frames audio_file entry 3200)
           @ [TextFrame (finish_task_message uuid4)] \<and>
         sequenced (sent (final_client
           (test_with_audio_file srv fs incoming e uuid4 key audio_file target_lang)))"
proof -
  let ?frames = "audio_frames audio_file entry 3200"
  let ?run = "TextFrame (run_task_message uuid4 target_lang ''auto'' 16000 ''pcm'' 10000 True)"
  let ?fin = "TextFrame (finish_task_message uuid4)"
  obtain r1 c1 where s1: "connect srv (init key uuid4) = (r1, c1)"
    by (cases "connect srv (init key uuid4)")
  from connected s1 have r1: "r1 = Inr ()" by simp
  from connect_ok [OF connected patient] s1
  have l1: "sent c1 = []" and w1: "writable c1 (Suc (length ?frames + 1))"
    and t1: "task_id c1 = uuid4"
    by (simp_all add: init_def)
  obtain r2 c2 where s2: "send_run_task c1 target_lang ''auto'' 16000 ''pcm'' 10000 True = (r2, c2)"
    by (cases "send_run_task c1 target_lang ''auto'' 16000 ''pcm'' 10000 True")
  from websocket_send_ok [OF w1, of ?run] s2 t1 l1
  have r2: "r2 = Inr ()" and l2: "sent c2 = [?run]"
    and w2: "writable c2 (length ?frames + 1)" and t2: "task_id c2 = uuid4"
    by (simp_all add: send_run_task_def)
  obtain r3 c3 where s3: "send_audio_data fs c2 audio_file 3200 = (r3, c3)"
    by (cases "send_audio_data fs c2 audio_file 3200")
  have "(0::int) \<le> 3200" by simp
  from send_audio_data_ok [where fs = fs and path = audio_file and entry = entry
      and chunk_size = 3200 and c = c2 and k = 1, OF entry valid this w2] s3 l2 t2
  have r3: "r3 = Inr ()" and l3: "sent c3 = ?run # map BinaryFrame ?frames"
    and w3: "writable c3 (Suc 0)" and t3: "task_id c3 = uuid4"
    by simp_all
  obtain r4 c4 where s4: "send_finish_task c3 = (r4, c4)"
    by (cases "send_finish_task c3")
  from websocket_send_ok [OF w3, of ?fin] s4 t3 l3
  have r4: "r4 = Inr ()" and l4: "sent c4 = ?run # map BinaryFrame ?frames @ [?fin]"
    by (simp_all add: send_finish_task_def)
  from s1 r1 s2 r2 s3 r3 s4 r4
  have "final_client
          (test_with_audio_file srv fs incoming e uuid4 key audio_file target_lang) = close c4"
    by (simp add: test_with_audio_file_def split: prod.split sum.split)
  then have log: "sent (final_client
      (test_with_audio_file srv fs incoming e uuid4 key audio_file target_lang)) =
      ?run # map BinaryFrame ?frames @ [?fin]"
    by (simp add: close_keeps l4)
  show ?thesis unfolding log by (simp only: sequenced_shape simp_thms)
qed

theorem control_messages_bracket_audio_witness:
  "fst (connect patient_server (init ''sk-test'' ''0f8fad5b-d9cb-469f-a165-70867728950e'')) = Inr ()
   \<and> stays_open patient_server 3
   \<and> example_fs ''hello.pcm'' = Some (RegularFile [1, 2, 3, 4, 5] None)
   \<and> streamable ''hello.pcm'' (RegularFile [1, 2, 3, 4, 5] None)
   \<and> audio_frames ''hello.pcm'' (RegularFile [1, 2, 3, 4, 5] None) 3200 = [[1, 2, 3, 4, 5]]
   \<and> sequenced (sent (final_client example_session))"
proof -
  let ?entry = "RegularFile [1, 2, 3, 4, 5] None"
  have connected:
    "fst (connect patient_server (init ''sk-test'' ''0f8fad5b-d9cb-469f-a165-70867728950e''))
       = Inr ()"
    by (simp add: connect_def websockets_connect_def patient_server_def Let_def)
  have frames: "audio_frames ''hello.pcm'' ?entry 3200 = [[1, 2, 3, 4, 5]]"
    by (simp add: audio_frames_def frame_bytes_def pcm_bytes_def endswith_def chunks.simps)
  have patient: "stays_open patient_server (length (audio_frames ''hello.pcm'' ?entry 3200) + 2)"
    by (simp add: stays_open_def patient_server_def)
  have valid: "streamable ''hello.pcm'' ?entry"
    by (simp add: streamable_def endswith_def)
  from control_messages_bracket_audio [where fs = example_fs and audio_file = "''hello.pcm''"
      and entry = ?entry and incoming = "[]" and e = ClosedOK and target_lang = "''en''",
      OF connected patient example_fs_hello valid]
  have "sequenced (sent (final_client example_session))"
    unfolding example_session_def by (rule conjunct2)
  with connected frames valid example_fs_hello show ?thesis
    by (simp add: stays_open_def patient_server_def)
qed

text \<open>
  C2 fails as stated. The client compares a duration with 60 seconds, but for a file
  whose name does not end in \<open>.wav\<close> the duration is the size divided by 32000, the
  byte rate of 16 kHz, 16 bit, mono, which the source assumes. The 8 kHz, 16-bit mono
  recording of 1000000 bytes lasts 62.5 seconds and is streamed in 313 frames with no
  error.
\<close>

theorem duration_limit_counterexample:
  "spec_duration 1000000 2 1 8000 > 60 \<and>
   example_fs ''narrowband.pcm'' = Some (RegularFile (replicate 1000000 0) None) \<and>
   fst (send_audio_data example_fs open_client ''narrowband.pcm'' 3200) = Inr () \<and>
   length (filter is_audio
     (sent (snd (send_audio_data example_fs open_client ''narrowband.pcm'' 3200)))) = 313"
proof -
  let ?entry = "RegularFile (replicate 1000000 0) None"
  have dur: "spec_duration 1000000 2 1 8000 > 60" by (simp add: spec_duration_def)
  have valid: "streamable ''narrowband.pcm'' ?entry"
    by (simp add: streamable_def endswith_def)
  have frames: "audio_frames ''narrowband.pcm'' ?entry 3200 = chunks 3200 (replicate 1000000 0)"
    by (simp add: audio_frames_def frame_bytes_def pcm_bytes_def endswith_def)
  have n: "length (chunks 3200 (replicate 1000000 (0::byte))) = 313"
    by (simp add: length_chunks)
  have w: "writable open_client (length (audio_frames ''narrowband.pcm'' ?entry 3200) + 0)"
    by (simp add: open_client_writable)
  have "(0::int) \<le> 3200" by simp
  from send_audio_data_ok [where fs = example_fs and path = "''narrowband.pcm''"
      and entry = ?entry and chunk_size = 3200 and c = open_client and k = 0,
      OF example_fs_narrowband valid this w]
  have "fst (send_audio_data example_fs open_client ''narrowband.pcm'' 3200) = Inr ()"
    and "sent (snd (send_audio_data example_fs open_client ''narrowband.pcm'' 3200)) =
         map BinaryFrame (chunks 3200 (replicate 1000000 0))"
    by (simp_all add: frames open_client_sent)
  with dur n example_fs_narrowband show ?thesis
    by (simp add: filter_audio_binary)
qed

text \<open>
  C2, amended. When the duration the client computes exceeds 60 seconds (for a WAV
  container the whole frames of the data chunk at the header's sample width, channel
  count and frame rate; for any other file its size at the assumed 16 kHz, 16 bit,
  mono), \<open>send_audio_data\<close> raises \<open>ValueError\<close> and leaves the client as it was,
  so no frame is written.
\<close>

theorem too_long_raises_before_any_frame:
  assumes entry: "fs path = Some entry"
    and long: "too_long path entry"
  shows "send_audio_data fs c path chunk_size = (Inl ValueError, c)"
proof -
  from long obtain bs wv where e: "entry = RegularFile bs wv"
    by (cases entry) (simp_all add: too_long_def)
  show ?thesis
  proof (cases "endswith path ''.wav''")
    case False
    with long e have "(of_nat (length bs) :: rat) / (16000 * 2) > 60"
      by (simp add: too_long_def spec_duration_def)
    with entry e False show ?thesis by (simp add: send_audio_data_def os_path_exists_def Let_def)
  next
    case True
    with long e obtain w where wv: "wv = Some w" and ch: "0 < nchannels w"
      and sw: "0 < sampwidth w" and rate: "0 < framerate w"
      and d: "spec_duration (getnframes w * (sampwidth w * nchannels w))
                (sampwidth w) (nchannels w) (framerate w) > 60"
      by (cases wv) (simp_all add: too_long_def)
    let ?b = "of_nat (sampwidth w * nchannels w) :: rat"
    from ch sw have b: "?b \<noteq> 0" by simp
    have "spec_duration (getnframes w * (sampwidth w * nchannels w))
            (sampwidth w) (nchannels w) (framerate w) =
          (of_nat (getnframes w) * ?b) / (?b * of_nat (framerate w))"
      by (simp add: spec_duration_def)
    also from b have "\<dots> = of_nat (getnframes w) / of_nat (framerate w)"
      by simp
    finally have "(of_nat (getnframes w) :: rat) / of_nat (framerate w) > 60"
      using d by simp
    with entry e True wv rate show ?thesis by (simp add: send_audio_data_def os_path_exists_def Let_def)
  qed
qed

theorem too_long_raises_before_any_frame_witness:
  "example_fs ''long.pcm'' = Some (RegularFile (replicate 1920002 0) None) \<and>
   too_long ''long.pcm'' (RegularFile (replicate 1920002 0) None) \<and>
   send_audio_data example_fs open_client ''long.pcm'' 3200 = (Inl ValueError, open_client)"
proof -
  have long: "too_long ''long.pcm'' (RegularFile (replicate 1920002 0) None)"
    by (simp add: too_long_def endswith_def spec_duration_def)
  from too_long_raises_before_any_frame [where fs = example_fs and path = "''long.pcm''",
      OF example_fs_long long, of open_client 3200] long example_fs_long
  show ?thesis by simp
qed

text \<open>
  C3 fails as stated. Under a name ending in \<open>.wav\<close> the client reads whole sample
  frames: it sends \<open>chunk_size div (sample_width * channels)\<close> frames at a time, and
  that many bytes are fewer than the chunk size when the frame size does not divide it.
  The 6399 data bytes of the 24-bit mono recording go out in 3 frames of at most 3198
  bytes with chunk size 3200, and \<open>ceil(6399/3200)\<close> is 2. A file over the
  duration limit is not streamed at all: of the 1920002 bytes of the long raw file no
  frame is written.
\<close>

theorem frame_count_counterexample:
  "example_fs ''speech24.wav'' =
     Some (RegularFile (replicate 44 0 @ replicate 6399 0) (Some wav24)) \<and>
   length (data_chunk wav24) = 6399 \<and>
   fst (send_audio_data example_fs open_client ''speech24.wav'' 3200) = Inr () \<and>
   length (filter is_audio
     (sent (snd (send_audio_data example_fs open_client ''speech24.wav'' 3200)))) = 3 \<and>
   ceil_div 6399 3200 = 2 \<and>
   example_fs ''long.pcm'' = Some (RegularFile (replicate 1920002 0) None) \<and>
   sent (snd (send_audio_data example_fs open_client ''long.pcm'' 3200)) = []"
proof -
  let ?entry = "RegularFile (replicate 44 0 @ replicate 6399 0) (Some wav24)"
  have valid: "streamable ''speech24.wav'' ?entry"
    by (simp add: streamable_def endswith_def wav24_def getnframes_def)
  have frames: "audio_frames ''speech24.wav'' ?entry 3200 = chunks 3198 (replicate 6399 0)"
    by (simp add: audio_frames_def frame_bytes_def pcm_bytes_def endswith_def wav24_def)
  have n: "length (chunks 3198 (replicate 6399 (0::byte))) = 3"
    by (simp add: length_chunks)
  have w: "writable open_client (length (audio_frames ''speech24.wav'' ?entry 3200) + 0)"
    by (simp add: open_client_writable)
  have "(0::int) \<le> 3200" by simp
  from send_audio_data_ok [where fs = example_fs and path = "''speech24.wav''"
      and entry = ?entry and chunk_size = 3200 and c = open_client and k = 0,
      OF example_fs_speech24 valid this w]
  have "fst (send_audio_data example_fs open_client ''speech24.wav'' 3200) = Inr ()"
    and "sent (snd (send_audio_data example_fs open_client ''speech24.wav'' 3200)) =
         map BinaryFrame (chunks 3198 (replicate 6399 0))"
    by (simp_all add: frames open_client_sent)
  moreover have "ceil_div 6399 3200 = 2" by (simp add: ceil_div_eq)
  moreover have "length (data_chunk wav24) = 6399" by (simp add: wav24_def)
  moreover have "sent (snd (send_audio_data example_fs open_client ''long.pcm'' 3200)) = []"
    by (simp add: send_audio_data_def os_path_exists_def example_fs_long endswith_def
        Let_def open_client_sent)
  ultimately show ?thesis using n example_fs_speech24 example_fs_long
    by (simp add: filter_audio_binary)
qed

text \<open>
  C3, amended. For a file the client streams to the end, a chunk size that makes a
  frame of at least one byte, and a connection that stays open, the client writes the
  audio bytes as consecutive binary frames: a file of \<open>N\<close> bytes under a name not
  ending in \<open>.wav\<close> in \<open>ceil(N/C)\<close> frames of \<open>C\<close> bytes, the \<open>N\<close> bytes of the data
  chunk of a WAV container in \<open>ceil(N/C')\<close> frames of
  \<open>C' = (C div frame_size) * frame_size\<close> bytes. The frames, concatenated in send
  order, are the audio bytes.
\<close>

theorem frames_cover_the_audio:
  assumes entry: "fs path = Some entry"
    and valid: "streamable path entry"
    and size: "0 < frame_bytes path entry chunk_size"
    and "open": "writable c
      (ceil_div (length (pcm_bytes path entry)) (frame_bytes path entry chunk_size))"
  shows "fst (send_audio_data fs c path chunk_size) = Inr () \<and>
         sent (snd (send_audio_data fs c path chunk_size)) =
           sent c @ map BinaryFrame (audio_frames path entry chunk_size) \<and>
         length (audio_frames path entry chunk_size) =
           ceil_div (length (pcm_bytes path entry)) (frame_bytes path entry chunk_size) \<and>
         concat (audio_frames path entry chunk_size) = pcm_bytes path entry"
proof -
  have count: "length (audio_frames path entry chunk_size) =
      ceil_div (length (pcm_bytes path entry)) (frame_bytes path entry chunk_size)"
    unfolding audio_frames_def using size by (simp add: length_chunks ceil_div_eq)
  have whole: "concat (audio_frames path entry chunk_size) = pcm_bytes path entry"
    unfolding audio_frames_def using size by (rule concat_chunks)
  have nonneg: "0 \<le> chunk_size"
  proof (rule ccontr)
    assume "\<not> 0 \<le> chunk_size"
    then have neg: "chunk_size < 0" by simp
    have "nat (chunk_size div d) = 0" if "0 \<le> d" for d
    proof (cases "d = 0")
      case True
      then show ?thesis by simp
    next
      case False
      with that have "0 < d" by simp
      with neg have "chunk_size div d < 0" by (rule div_neg_pos_less0)
      then show ?thesis by simp
    qed
    with neg have "frame_bytes path entry chunk_size = 0"
      by (simp add: frame_bytes_def split: fs_entry.split option.split)
    with size show False by simp
  qed
  from "open" count
  have w: "writable c (length (audio_frames path entry chunk_size) + 0)" by simp
  from send_audio_data_ok [where fs = fs and path = path and entry = entry
      and chunk_size = chunk_size and c = c and k = 0, OF entry valid nonneg w]
    count whole
  show ?thesis by simp
qed

theorem frames_cover_the_audio_witness:
  "example_fs ''hello.pcm'' = Some (RegularFile [1, 2, 3, 4, 5] None) \<and>
   streamable ''hello.pcm'' (RegularFile [1, 2, 3, 4, 5] None) \<and>
   frame_bytes ''hello.pcm'' (RegularFile [1, 2, 3, 4, 5] None) 2 = 2 \<and>
   ceil_div 5 2 = 3 \<and>
   sent (snd (send_audio_data example_fs open_client ''hello.pcm'' 2)) =
     [BinaryFrame [1, 2], BinaryFrame [3, 4], BinaryFrame [5]]"
proof -
  let ?entry = "RegularFile [1, 2, 3, 4, 5] None"
  have valid: "streamable ''hello.pcm'' ?entry"
    by (simp add: streamable_def endswith_def)
  have fb: "frame_bytes ''hello.pcm'' ?entry 2 = 2"
    by (simp add: frame_bytes_def endswith_def)
  then have size: "0 < frame_bytes ''hello.pcm'' ?entry 2" by simp
  have frames: "audio_frames ''hello.pcm'' ?entry 2 = [[1, 2], [3, 4], [5]]"
    by (simp add: audio_frames_def fb pcm_bytes_def endswith_def chunks.simps)
  have w: "writable open_client
      (ceil_div (length (pcm_bytes ''hello.pcm'' ?entry)) (frame_bytes ''hello.pcm'' ?entry 2))"
    by (rule open_client_writable)
  from frames_cover_the_audio [where fs = example_fs and path = "''hello.pcm''"
      and entry = ?entry and chunk_size = 2 and c = open_client,
      OF example_fs_hello valid size w]
  have "sent (snd (send_audio_data example_fs open_client ''hello.pcm'' 2)) =
     [BinaryFrame [1, 2], BinaryFrame [3, 4], BinaryFrame [5]]"
    by (simp add: frames open_client_sent)
  with valid fb example_fs_hello show ?thesis by (simp add: ceil_div_eq)
qed

text \<open>
  C8. On a connection that accepts one more write, \<open>send_run_task\<close> writes exactly one
  text frame, with header \<open>{task_id, action: "run-task", streaming: "duplex"}\<close> and
  payload \<open>{task_group: "audio", task: "asr", function: "recognition", model, input:
  {format, sample_rate, audio_type: "sentence", translation: {target_lang,
  source_lang}}, parameters: {max_end_silence, enable_inverse_text_normalization}}\<close>,
  and \<open>send_finish_task\<close> writes exactly one text frame, with header \<open>{task_id,
  action: "finish-task", streaming: "duplex"}\<close> and payload \<open>{input: {}}\<close>.
\<close>

theorem control_message_fields:
  assumes "writable c 1"
  shows "fst (send_run_task c target_lang source_lang sample_rate format max_end_silence itn)
           = Inr () \<and>
         sent (snd (send_run_task c target_lang source_lang sample_rate format
                      max_end_silence itn)) =
           sent c @
           [TextFrame (JObj
             [(''header'',
                 JObj [(''task_id'', JStr (task_id c)),
                       (''action'', JStr ''run-task''),
                       (''streaming'', JStr ''duplex'')]),
              (''payload'',
                 JObj [(''task_group'', JStr ''audio''),
                       (''task'', JStr ''asr''),
                       (''function'', JStr ''recognition''),
                       (''model'', JStr ''gummy-realtime-v1''),
                       (''input'',
                          JObj [(''format'', JStr format),
                                (''sample_rate'', JInt sample_rate),
                                (''audio_type'', JStr ''sentence''),
                                (''translation'',
                                   JObj [(''target_lang'', JStr target_lang),
                                         (''source_lang'', JStr source_lang)])]),
                       (''parameters'',
                          JObj [(''max_end_silence'', JInt max_end_silence),
                                (''enable_inverse_text_normalization'', JBool itn)])])])] \<and>
         fst (send_finish_task c) = Inr () \<and>
         sent (snd (send_finish_task c)) =
           sent c @
           [TextFrame (JObj
             [(''header'',
                 JObj [(''task_id'', JStr (task_id c)),
                       (''action'', JStr ''finish-task''),
                       (''streaming'', JStr ''duplex'')]),
              (''payload'', JObj [(''input'', JObj [])])])]"
proof -
  from assms have w: "writable c (Suc 0)" by simp
  note ok = websocket_send_ok [OF w]
  show ?thesis
    unfolding send_run_task_def send_finish_task_def
    by (simp add: ok run_task_message_def finish_task_message_def)
qed

theorem control_message_fields_witness:
  "writable open_client 1 \<and>
   json_at [''payload'', ''input'', ''translation'', ''target_lang'']
     (run_task_message (task_id open_client) ''ja'' ''auto'' 16000 ''pcm'' 5000 True)
     = Some (JStr ''ja'') \<and>
   sent (snd (send_finish_task open_client)) =
     [TextFrame (finish_task_message ''0f8fad5b-d9cb-469f-a165-70867728950e'')]"
proof -
  have w: "writable open_client 1"
    by (simp add: writable_def accepts_writes_def open_client_def init_def)
  have s: "sent open_client = []"
    and t: "task_id open_client = ''0f8fad5b-d9cb-469f-a165-70867728950e''"
    by (simp_all add: sent_def open_client_def init_def)
  from control_message_fields [OF w, of "''ja''" "''auto''" 16000 "''pcm''" 5000 True]
  have "sent (snd (send_finish_task open_client)) =
     [TextFrame (finish_task_message ''0f8fad5b-d9cb-469f-a165-70867728950e'')]"
    by (simp add: s t finish_task_message_def)
  with w show ?thesis by (simp add: run_task_message_def)
qed

text \<open>
  C9. The task identifier is fixed at construction: the client the driver ends with still
  has the identifier it was constructed with, and every control message in its outbound
  log carries that identifier in \<open>header.task_id\<close>, whatever the server, the file
  system and the inbound traffic do.
\<close>

theorem task_id_stable:
  "task_id (final_client
      (test_with_audio_file srv fs incoming e uuid4 key audio_file target_lang)) = uuid4 \<and>
   list_all (carries_task_id uuid4)
     (sent (final_client
        (test_with_audio_file srv fs incoming e uuid4 key audio_file target_lang)))"
proof -
  let ?final = "final_client
    (test_with_audio_file srv fs incoming e uuid4 key audio_file target_lang)"
  from driver_stages [where srv = srv and fs = fs and incoming = incoming and e = e
      and ?uuid4.0 = uuid4 and key = key and audio_file = audio_file
      and target_lang = target_lang]
    driver_invariant [where srv = srv and fs = fs and ?uuid4.0 = uuid4 and key = key
      and audio_file = audio_file and target_lang = target_lang]
  obtain c where final: "?final = close c"
    and stage: "task_id c = uuid4 \<and> list_all (carries_task_id uuid4) (sent c)"
    by auto
  show ?thesis unfolding final close_keeps using stage .
qed

theorem task_id_stable_witness:
  "task_id (final_client example_session) = ''0f8fad5b-d9cb-469f-a165-70867728950e'' \<and>
   list_all (carries_task_id ''0f8fad5b-d9cb-469f-a165-70867728950e'')
     [TextFrame (run_task_message ''0f8fad5b-d9cb-469f-a165-70867728950e'' ''en'' ''auto''
        16000 ''pcm'' 10000 True),
      BinaryFrame [1, 2, 3, 4, 5],
      TextFrame (finish_task_message ''0f8fad5b-d9cb-469f-a165-70867728950e'')]"
  using task_id_stable [of patient_server example_fs "[]" ClosedOK
      "''0f8fad5b-d9cb-469f-a165-70867728950e''" "''sk-test''" "''hello.pcm''" "''en''"]
  unfolding example_session_def [symmetric] example_session_log .

text \<open>
  C10. For a path that does not exist, \<open>send_audio_data\<close> raises
  \<open>FileNotFoundError\<close> and leaves the client, hence the outbound log, as it was:
  nothing is read and nothing is written.
\<close>

theorem missing_file_raises_before_any_write:
  assumes "\<not> os_path_exists fs audio_file_path"
  shows "send_audio_data fs c audio_file_path chunk_size = (Inl FileNotFoundError, c) \<and>
         sent (snd (send_audio_data fs c audio_file_path chunk_size)) = sent c"
proof -
  from assms have "fs audio_file_path = None" by (simp add: os_path_exists_def)
  then have "send_audio_data fs c audio_file_path chunk_size = (Inl FileNotFoundError, c)"
    by (simp add: send_audio_data_def os_path_exists_def)
  then show ?thesis by simp
qed

theorem missing_file_raises_before_any_write_witness:
  "\<not> os_path_exists example_fs ''absent.pcm'' \<and>
   send_audio_data example_fs open_client ''absent.pcm'' 3200 =
     (Inl FileNotFoundError, open_client)"
proof -
  have missing: "\<not> os_path_exists example_fs ''absent.pcm''"
    by (simp add: os_path_exists_def example_fs_def)
  from missing_file_raises_before_any_write [OF missing, of open_client 3200] missing
  show ?thesis by simp
qed

section \<open>Properties of the receive path\<close>

text \<open>
  C4. When every message received before a terminal event is one the loop is written
  for (text that is not JSON, or a JSON object whose header is an object and whose
  payload, if it is a result event, the handler reads to the end), the console shows,
  after the listening notice, exactly what is owed for each message, in arrival order:
  for every result event the event itself, its recognition text with the final flag and
  the times, and each of its translations with the language, nothing dropped, merged
  or reordered; then the notice of the terminal event, where the loop ends without an
  exception. For the scripted server (\<open>task-started\<close>, two partial results, a final
  result, \<open>task-finished\<close>) exactly the three results are delivered, in that order,
  each with its recognition and its translation, and the last line is the completion
  notice.
\<close>

theorem results_forwarded_in_order:
  assumes pre: "\<forall>m \<in> set pre. expected m \<and> \<not> terminal m"
    and t: "terminal t"
  shows "fst (receive_messages (pre @ t # rest) e) = Inr () \<and>
         snd (receive_messages (pre @ t # rest) e) =
           ListeningLine # concat (map console_report (pre @ [t])) \<and>
         results_delivered (snd (receive_messages (pre @ t # rest) e)) = result_events pre \<and>
         (event_type t = Some (JStr ''task-finished'') \<longrightarrow>
            last (snd (receive_messages (pre @ t # rest) e)) = TaskFinishedLine)"
proof -
  let ?printed = "concat (map console_report pre)"
  from handle_message_terminal [OF t]
  have "receive_loop (t # rest) e = (Inr (), console_report t)" by simp
  with receive_loop_append [OF pre, of "t # rest" e] printed_for_prefix [OF pre]
  have "receive_loop (pre @ t # rest) e = (Inr (), ?printed @ console_report t)"
    by (cases "receive_loop (pre @ t # rest) e") simp
  then have run: "receive_messages (pre @ t # rest) e =
      (Inr (), ListeningLine # ?printed @ console_report t)"
    by (simp add: receive_messages_def)
  from pre have "\<forall>m \<in> set pre. \<not> terminal m" by simp
  from results_of_prefix [OF this] results_delivered_terminal [OF t]
  have delivered: "results_delivered (ListeningLine # ?printed @ console_report t) =
      result_events pre"
    by (simp add: results_delivered_append)
  have closing: "last (ListeningLine # ?printed @ console_report t) = TaskFinishedLine"
    if "event_type t = Some (JStr ''task-finished'')"
  proof -
    from that obtain ev where "t = Decodes ev" by (cases t) simp_all
    with that have "console_report t = [TaskFinishedLine]" by simp
    then show ?thesis by simp
  qed
  from delivered closing show ?thesis unfolding run by simp
qed

theorem results_forwarded_in_order_witness:
  "terminal (Decodes task_finished) \<and>
   event_type (Decodes task_finished) = Some (JStr ''task-finished'') \<and>
   receive_messages scripted_server ClosedOK =
     (Inr (),
      [ListeningLine, TaskStartedLine,
       ReceivedResultLine (sentence_event ''ni'' ''he'' False),
       TranscriptionLine False (JInt 0) (JInt 1200), TextLine (JStr ''ni''),
       TranslationLine (JStr ''en'') False (JInt 0) (JInt 1200), TextLine (JStr ''he''),
       BlankLine,
       ReceivedResultLine (sentence_event ''ni hao shi'' ''hello wor'' False),
       TranscriptionLine False (JInt 0) (JInt 1200), TextLine (JStr ''ni hao shi''),
       TranslationLine (JStr ''en'') False (JInt 0) (JInt 1200), TextLine (JStr ''hello wor''),
       BlankLine,
       ReceivedResultLine (sentence_event ''ni hao shijie'' ''hello world'' True),
       TranscriptionLine True (JInt 0) (JInt 1200), TextLine (JStr ''ni hao shijie''),
       TranslationLine (JStr ''en'') True (JInt 0) (JInt 1200), TextLine (JStr ''hello world''),
       BlankLine,
       TaskFinishedLine]) \<and>
   results_delivered (snd (receive_messages scripted_server ClosedOK)) =
     [sentence_event ''ni'' ''he'' False,
      sentence_event ''ni hao shi'' ''hello wor'' False,
      sentence_event ''ni hao shijie'' ''hello world'' True]"
proof -
  let ?pre = "[Decodes task_started, Decodes (sentence_event ''ni'' ''he'' False),
    Decodes (sentence_event ''ni hao shi'' ''hello wor'' False),
    Decodes (sentence_event ''ni hao shijie'' ''hello world'' True)]"
  have pre: "\<forall>m \<in> set ?pre. expected m \<and> \<not> terminal m"
    by (simp add: task_started_def sentence_event_def terminal_def is_result_def
        readable_result_def lookup_or_def bind_result_def)
  have t: "terminal (Decodes task_finished)"
    by (simp add: terminal_def task_finished_def bind_result_def)
  have fin: "event_type (Decodes task_finished) = Some (JStr ''task-finished'')"
    by (simp add: task_finished_def bind_result_def)
  have events: "result_events ?pre =
     [sentence_event ''ni'' ''he'' False,
      sentence_event ''ni hao shi'' ''hello wor'' False,
      sentence_event ''ni hao shijie'' ''hello world'' True]"
    by (simp add: is_result_def task_started_def sentence_event_def bind_result_def)
  have started: "console_report (Decodes task_started) = [TaskStartedLine]"
    and finished: "console_report (Decodes task_finished) = [TaskFinishedLine]"
    by (simp_all add: task_started_def task_finished_def bind_result_def)
  have report: "console_report (Decodes (sentence_event said english final)) =
      [ReceivedResultLine (sentence_event said english final),
       TranscriptionLine final (JInt 0) (JInt 1200), TextLine (JStr said),
       TranslationLine (JStr ''en'') final (JInt 0) (JInt 1200), TextLine (JStr english),
       BlankLine]" for said english final
  proof -
    have "event_type (Decodes (sentence_event said english final)) =
        Some (JStr ''result-generated'')"
      by (simp add: sentence_event_def bind_result_def)
    moreover have "result_report (sentence_event said english final) =
      [ReceivedResultLine (sentence_event said english final),
       TranscriptionLine final (JInt 0) (JInt 1200), TextLine (JStr said),
       TranslationLine (JStr ''en'') final (JInt 0) (JInt 1200), TextLine (JStr english),
       BlankLine]"
      unfolding result_report_def
      by (simp add: sentence_event_def lookup_or_def)
    ultimately show ?thesis by simp
  qed
  have script: "scripted_server = ?pre @ Decodes task_finished # []"
    by (simp add: scripted_server_def)
  have shown: "concat (map console_report (?pre @ [Decodes task_finished])) =
      [TaskStartedLine,
       ReceivedResultLine (sentence_event ''ni'' ''he'' False),
       TranscriptionLine False (JInt 0) (JInt 1200), TextLine (JStr ''ni''),
       TranslationLine (JStr ''en'') False (JInt 0) (JInt 1200), TextLine (JStr ''he''),
       BlankLine,
       ReceivedResultLine (sentence_event ''ni hao shi'' ''hello wor'' False),
       TranscriptionLine False (JInt 0) (JInt 1200), TextLine (JStr ''ni hao shi''),
       TranslationLine (JStr ''en'') False (JInt 0) (JInt 1200), TextLine (JStr ''hello wor''),
       BlankLine,
       ReceivedResultLine (sentence_event ''ni hao shijie'' ''hello world'' True),
       TranscriptionLine True (JInt 0) (JInt 1200), TextLine (JStr ''ni hao shijie''),
       TranslationLine (JStr ''en'') True (JInt 0) (JInt 1200), TextLine (JStr ''hello world''),
       BlankLine,
       TaskFinishedLine]"
    by (simp only: map_append list.map concat_append concat.simps append_Nil2 append_Nil
        started finished report append.simps)
  obtain r ls where run: "receive_messages scripted_server ClosedOK = (r, ls)"
    by (cases "receive_messages scripted_server ClosedOK")
  then have run': "receive_messages (?pre @ Decodes task_finished # []) ClosedOK = (r, ls)"
    unfolding script .
  note all = results_forwarded_in_order [OF pre t, of "[]" ClosedOK,
      unfolded run' fst_conv snd_conv]
  from all have a: "r = Inr ()" by (rule conjunct1)
  from all have b: "ls = ListeningLine #
      concat (map console_report (?pre @ [Decodes task_finished]))"
    by (rule conjunct1 [OF conjunct2])
  from all have c: "results_delivered ls = result_events ?pre"
    by (rule conjunct1 [OF conjunct2 [OF conjunct2]])
  from t fin a b [unfolded shown] c [unfolded events] show ?thesis
    unfolding run snd_conv by (simp only: simp_thms)
qed

text \<open>
  C5 fails as stated. The \<open>task-failed\<close> branch prints and leaves the loop with
  \<open>break\<close>; \<open>receive_messages\<close> returns as it does after \<open>task-finished\<close>, and the
  driver's handler catches nothing. No exception type for a remote failure exists in
  the client.
\<close>

theorem task_failed_counterexample:
  "fst (receive_messages [Decodes task_failed] ClosedOK) = Inr () \<and>
   fst (receive_messages [Decodes task_failed] ClosedOK) =
     fst (receive_messages [Decodes task_finished] ClosedOK) \<and>
   caught (test_with_audio_file patient_server example_fs [Decodes task_failed] ClosedOK
     ''0f8fad5b-d9cb-469f-a165-70867728950e'' ''sk-test'' ''hello.pcm'' ''en'') = None"
  by (simp add: receive_messages_def handle_message_def bind_result_def task_failed_def
      task_finished_def test_with_audio_file_def connect_def init_def
      websockets_connect_def patient_server_def send_run_task_def websocket_send_def
      ws_send_def send_audio_data_def os_path_exists_def example_fs_hello endswith_def Let_def
      send_raw_chunks.simps file_read_def send_finish_task_def)

text \<open>
  C5, amended. When a \<open>task-failed\<close> event arrives after messages the loop is
  written for, none of them terminal, the receive loop ends there (what follows on the connection is not read) and
  \<open>receive_messages\<close> returns normally. It prints the failure notice, the server's
  error code verbatim (\<open>UNKNOWN\<close> when the header has none), the error message, a
  hint when the code is \<open>TOO_LONG_SPEECH\<close>, and the event.
\<close>

theorem task_failed_ends_the_loop:
  assumes pre: "\<forall>m \<in> set pre. expected m \<and> \<not> terminal m"
    and failed: "event_type (Decodes ev) = Some (JStr ''task-failed'')"
  shows "receive_messages (pre @ Decodes ev # rest) e =
           (Inr (),
            snd (receive_messages pre ClosedOK)
            @ [TaskFailedLine, ErrorCodeLine (error_code_of ev),
               ErrorMessageLine (error_message_of ev)]
            @ (if error_code_of ev = JStr ''TOO_LONG_SPEECH'' then [TooLongHintLine] else [])
            @ [DetailLine ev])"
proof -
  let ?printed = "concat (map (\<lambda>m. snd (handle_message m)) pre)"
  let ?ls = "[TaskFailedLine, ErrorCodeLine (error_code_of ev),
               ErrorMessageLine (error_message_of ev)]
            @ (if error_code_of ev = JStr ''TOO_LONG_SPEECH'' then [TooLongHintLine] else [])
            @ [DetailLine ev]"
  from handle_message_failed [OF failed]
  have "receive_loop (Decodes ev # rest) e = (Inr (), ?ls)" by simp
  with receive_loop_append [OF pre, of "Decodes ev # rest" e]
  have "receive_loop (pre @ Decodes ev # rest) e = (Inr (), ?printed @ ?ls)"
    by (cases "receive_loop (pre @ Decodes ev # rest) e") simp
  moreover from receive_loop_append [OF pre, of "[]" ClosedOK]
  have "snd (receive_loop pre ClosedOK) = ?printed" by simp
  ultimately show ?thesis
    by (simp add: receive_messages_def split_beta)
qed

theorem task_failed_ends_the_loop_witness:
  "event_type (Decodes task_failed) = Some (JStr ''task-failed'') \<and>
   error_code_of task_failed = JStr ''TOO_LONG_SPEECH'' \<and>
   receive_messages [Decodes task_started, Decodes task_failed, Decodes task_finished]
       ClosedError =
     (Inr (),
      [ListeningLine, TaskStartedLine, TaskFailedLine,
       ErrorCodeLine (JStr ''TOO_LONG_SPEECH''),
       ErrorMessageLine (JStr ''speech is too long''), TooLongHintLine,
       DetailLine task_failed])"
proof -
  have pre: "\<forall>m \<in> set [Decodes task_started]. expected m \<and> \<not> terminal m"
    by (simp add: task_started_def terminal_def is_result_def bind_result_def)
  have failed: "event_type (Decodes task_failed) = Some (JStr ''task-failed'')"
    by (simp add: task_failed_def bind_result_def)
  have code: "error_code_of task_failed = JStr ''TOO_LONG_SPEECH''"
    and msg: "error_message_of task_failed = JStr ''speech is too long''"
    by (simp_all add: error_code_of_def error_message_of_def task_failed_def)
  have before: "snd (receive_messages [Decodes task_started] ClosedOK) =
      [ListeningLine, TaskStartedLine]"
    by (simp add: receive_messages_def handle_message_def task_started_def bind_result_def)
  from task_failed_ends_the_loop [OF pre failed, of "[Decodes task_finished]" ClosedError]
    failed code
  show ?thesis by (simp add: before code msg)
qed

text \<open>
  C6 fails as stated. \<open>receive_messages\<close> catches \<open>ConnectionClosed\<close>, prints a
  notice and returns; the driver's handler catches nothing, so the caller sees no error.
\<close>

theorem premature_close_counterexample:
  "receive_messages [Decodes task_started] ClosedError =
     (Inr (), [ListeningLine, TaskStartedLine, ConnectionClosedLine]) \<and>
   caught (test_with_audio_file patient_server example_fs [Decodes task_started] ClosedError
     ''0f8fad5b-d9cb-469f-a165-70867728950e'' ''sk-test'' ''hello.pcm'' ''en'') = None"
  by (simp add: receive_messages_def handle_message_def bind_result_def task_started_def
      test_with_audio_file_def connect_def init_def
      websockets_connect_def patient_server_def send_run_task_def websocket_send_def
      ws_send_def send_audio_data_def os_path_exists_def example_fs_hello endswith_def Let_def
      send_raw_chunks.simps file_read_def send_finish_task_def)

text \<open>
  C6, amended. When the connection closes after messages the loop is written for and
  before any terminal event, the receive loop ends and \<open>receive_messages\<close> returns normally: it
  prints what it printed for the messages and, when the connection broke rather than
  closed in order, a closing notice as its last line. No exception reaches the caller.
\<close>

theorem premature_close_returns_normally:
  assumes "\<forall>m \<in> set incoming. expected m \<and> \<not> terminal m"
  shows "fst (receive_messages incoming ClosedError) = Inr () \<and>
         fst (receive_messages incoming ClosedOK) = Inr () \<and>
         snd (receive_messages incoming ClosedError) =
           snd (receive_messages incoming ClosedOK) @ [ConnectionClosedLine]"
proof -
  from receive_loop_append [OF assms, of "[]" ClosedError]
    receive_loop_append [OF assms, of "[]" ClosedOK]
  show ?thesis by (simp add: receive_messages_def split_beta)
qed

theorem premature_close_returns_normally_witness:
  "fst (receive_messages [Decodes task_started, Decodes (result_event ''hel'' False)]
          ClosedError) = Inr () \<and>
   last (snd (receive_messages [Decodes task_started, Decodes (result_event ''hel'' False)]
          ClosedError)) = ConnectionClosedLine"
proof -
  let ?incoming = "[Decodes task_started, Decodes (result_event ''hel'' False)]"
  have wf: "\<forall>m \<in> set ?incoming. expected m \<and> \<not> terminal m"
    by (simp add: task_started_def result_event_def terminal_def is_result_def
        readable_result_def lookup_or_def bind_result_def)
  from premature_close_returns_normally [OF wf] show ?thesis by simp
qed

text \<open>
  C7. A message that is not JSON is skipped: the loop prints a notice and goes on to
  the completion event. A message that is JSON but not an object, here the text
  \<open>[]\<close>, is not: \<open>event.get\<close> raises \<open>AttributeError\<close>, which the handler for
  \<open>json.JSONDecodeError\<close> does not catch, and the loop ends with that exception
  before it reads the completion event.
\<close>

theorem malformed_message_ends_the_loop:
  "receive_messages [NotJson, Decodes task_finished] ClosedOK =
     (Inr (), [ListeningLine, JSONErrorLine, TaskFinishedLine]) \<and>
   receive_messages [Decodes (JArr []), Decodes task_finished] ClosedOK =
     (Inl AttributeError, [ListeningLine])"
  by (simp add: receive_messages_def handle_message_def bind_result_def task_finished_def)

end
